theory Spec2Isabelle
  imports Main
begin

section \<open>The analysis worker\<close>

text \<open>
  The worker script keeps two module-level variables, \<open>pyodide\<close> and \<open>jediInitialized\<close>
  (and the cached loader \<open>loadPyodideFn\<close>), and answers the messages of the page. Every
  function of the script is embedded as a function on an explicit worker state. The
  Pyodide module, micropip, Jedi and parso are outside the repository: what they return is
  read from an environment \<open>env\<close>, and every call made to them is appended to the
  \<open>calls\<close> log of the state, so that "no call into the runtime" is a statement about
  that log. A call to them returns or raises: one that never comes back is not part of
  this model.

  A message handler is embedded as one atomic step: the handler of the script is
  \<open>async\<close>, and the interleaving of two handlers at their \<open>await\<close> points is not
  part of this model. JavaScript numbers are embedded as \<open>int\<close> (the editor sends
  integral line and column numbers), strings as \<open>string\<close>, and a thrown error as the
  string \<open>String(error)\<close> renders for it.
\<close>

subsection \<open>Messages\<close>

datatype 'a outcome = Raises string | Returns 'a

datatype severity = SeverityError | SeverityWarning

record WorkerDiagnostic =
  diag_line :: int
  diag_column :: int
  diag_message :: string
  diag_severity :: severity

record WorkerCompletionItem =
  item_name :: string
  item_type :: string
  item_description :: string
  item_signature :: string
  item_docstring :: string
  item_insert_text :: string

record WorkerHoverPayload =
  contents_kind :: string
  contents_value :: string

record DefinitionResult =
  def_name :: string
  def_line :: "int option"
  def_column :: "int option"
  def_description :: string

text \<open>
  \<open>WorkerRequest\<close> is the union type of the script, one constructor per member, each
  with its \<open>requestId\<close> first. \<open>Unknown\<close> stands for a message whose \<open>type\<close> is none
  of the five: the type excludes it, the \<open>default\<close> branch of the handler receives it.
\<close>

datatype WorkerRequest =
    Initialize string
  | Analyze string string
  | Completion string string int int
  | Hover string string int int
  | Definition string string int int
  | Unknown string string

datatype WorkerResponse =
    Initialized string bool "string option"
  | Analysis string "WorkerDiagnostic list"
  | CompletionResponse string "WorkerCompletionItem list"
  | HoverResponse string "WorkerHoverPayload option"
  | DefinitionResponse string "DefinitionResult list"

fun request_id :: "WorkerRequest \<Rightarrow> string" where
  "request_id (Initialize rid) = rid"
| "request_id (Analyze rid code) = rid"
| "request_id (Completion rid code l c) = rid"
| "request_id (Hover rid code l c) = rid"
| "request_id (Definition rid code l c) = rid"
| "request_id (Unknown ty rid) = rid"

fun response_id :: "WorkerResponse \<Rightarrow> string" where
  "response_id (Initialized rid ok err) = rid"
| "response_id (Analysis rid ds) = rid"
| "response_id (CompletionResponse rid items) = rid"
| "response_id (HoverResponse rid h) = rid"
| "response_id (DefinitionResponse rid ds) = rid"

fun known_kind :: "WorkerRequest \<Rightarrow> bool" where
  "known_kind (Unknown ty rid) = False"
| "known_kind r = True"

subsection \<open>What Jedi and parso hand to the bootstrap script\<close>

text \<open>
  An attribute read with \<open>getattr(obj, name, None)\<close>: absent, a plain value (\<open>None\<close>
  or a string), or a callable with the outcome of calling it.
\<close>

datatype attr = Missing | Plain "string option" | Method "string option outcome"

record jedi_name =
  jn_name :: "string option"
  jn_type :: "string option"
  jn_description :: "string option"
  jn_signatures :: "string list outcome"
  jn_docstring :: attr
  jn_complete :: "string option"
  jn_line :: "int option"
  jn_column :: "int option"

record parso_error =
  pe_line :: int
  pe_column :: int
  pe_message :: string

text \<open>
  The source texts given to \<open>runPythonAsync\<close>: the install script, the bootstrap script
  rendered by \<open>createJediBootstrap\<close> with a limit, and the four call expressions of
  the analysis functions.
\<close>

datatype py_code =
    INSTALL_SCRIPT
  | createJediBootstrap int
  | Call_get_diagnostics
  | Call_get_completions
  | Call_get_hover
  | Call_get_definitions

text \<open>
  The environment of one message: the outcome of the dynamic import, of the loader, of
  \<open>loadPackage\<close> and of \<open>micropip.install\<close>, of the imports of the bootstrap script,
  what Jedi and parso return for a source text and a position, \<open>textwrap.dedent\<close>, and
  \<open>python_fault\<close>, the error with which \<open>runPythonAsync\<close> rejects when the run fails
  outside the \<open>try\<close> blocks of the script (if it does).
\<close>

record env =
  import_module :: "unit outcome"
  loadPyodide :: "unit outcome"
  loadPackage_result :: "string \<Rightarrow> unit outcome"
  micropip_install :: "string \<Rightarrow> unit outcome"
  bootstrap_imports :: "unit outcome"
  jedi_complete :: "string \<Rightarrow> int \<Rightarrow> int \<Rightarrow> jedi_name list outcome"
  jedi_help :: "string \<Rightarrow> int \<Rightarrow> int \<Rightarrow> jedi_name list outcome"
  jedi_goto :: "string \<Rightarrow> int \<Rightarrow> int \<Rightarrow> jedi_name list outcome"
  parso_iter_errors :: "string \<Rightarrow> parso_error list outcome"
  textwrap_dedent :: "string \<Rightarrow> string"
  python_fault :: "py_code \<Rightarrow> string option"

subsection \<open>The bootstrap script (Python)\<close>

text \<open>\<open>x or ""\<close> on a value that is \<open>None\<close> or a string.\<close>

fun or_empty :: "string option \<Rightarrow> string" where
  "or_empty None = []"
| "or_empty (Some s) = s"

fun call_or_default :: "attr \<Rightarrow> string \<Rightarrow> string option" where
  "call_or_default (Method (Returns v)) default_value = v"
| "call_or_default (Method (Raises e)) default_value = Some default_value"
| "call_or_default (Plain (Some s)) default_value = Some s"
| "call_or_default (Plain None) default_value = Some default_value"
| "call_or_default Missing default_value = Some default_value"

text \<open>
  \<open>str.strip()\<close>: a \<open>char\<close> stands for a code point below 256, and these are the ones
  among them that Python counts as white space.
\<close>

definition is_space :: "char \<Rightarrow> bool" where
  "is_space ch = (ch \<in> set [CHR '' '', CHR 0x09, CHR 0x0A, CHR 0x0B, CHR 0x0C, CHR 0x0D,
                              CHR 0x1C, CHR 0x1D, CHR 0x1E, CHR 0x1F, CHR 0x85, CHR 0xA0])"

definition strip :: "string \<Rightarrow> string" where
  "strip s = rev (dropWhile is_space (rev (dropWhile is_space s)))"

definition clean_docstring :: "env \<Rightarrow> string option \<Rightarrow> string" where
  "clean_docstring e v =
     (case v of None \<Rightarrow> [] | Some s \<Rightarrow> if s = [] then [] else strip (textwrap_dedent e s))"

text \<open>
  \<open>xs[:n]\<close>: the first \<open>n\<close> elements, and for a negative \<open>n\<close> all but the last \<open>-n\<close>.
\<close>

definition slice_to :: "int \<Rightarrow> 'a list \<Rightarrow> 'a list" where
  "slice_to n xs = (if 0 \<le> n then take (nat n) xs else take (nat (int (length xs) + n)) xs)"

text \<open>\<open>str(signatures[0]) if signatures else ""\<close>\<close>

fun first_signature :: "string list \<Rightarrow> string" where
  "first_signature [] = []"
| "first_signature (s # ss) = s"

text \<open>
  The body of the loop of \<open>get_completions\<close> for one candidate: \<open>get_signatures()\<close> may
  raise, and then the \<open>except\<close> of the function is reached.
\<close>

definition completion_entry :: "env \<Rightarrow> jedi_name \<Rightarrow> WorkerCompletionItem outcome" where
  "completion_entry e item =
     (case jn_signatures item of
        Raises err \<Rightarrow> Raises err
      | Returns signatures \<Rightarrow> Returns
          \<lparr> item_name = or_empty (jn_name item),
            item_type = or_empty (jn_type item),
            item_description = or_empty (jn_description item),
            item_signature = first_signature signatures,
            item_docstring = clean_docstring e (call_or_default (jn_docstring item) []),
            item_insert_text =
              (case jn_complete item of
                 None \<Rightarrow> or_empty (jn_name item)
               | Some c \<Rightarrow> if c = [] then or_empty (jn_name item) else c) \<rparr>)"

fun completion_loop ::
  "env \<Rightarrow> jedi_name list \<Rightarrow> WorkerCompletionItem list \<Rightarrow> WorkerCompletionItem list outcome"
where
  "completion_loop e [] results = Returns results"
| "completion_loop e (item # rest) results =
     (case completion_entry e item of
        Raises err \<Rightarrow> Raises err
      | Returns r \<Rightarrow> completion_loop e rest (results @ [r]))"

definition get_completions ::
  "env \<Rightarrow> int \<Rightarrow> string \<Rightarrow> int \<Rightarrow> int \<Rightarrow> WorkerCompletionItem list" where
  "get_completions e maxCompletions code l c =
     (case jedi_complete e code l c of
        Raises err \<Rightarrow> []
      | Returns completions \<Rightarrow>
          (case completion_loop e (slice_to maxCompletions completions) [] of
             Raises err \<Rightarrow> []
           | Returns results \<Rightarrow> results))"

record hover_info =
  hi_name :: string
  hi_type :: string
  hi_description :: string
  hi_docstring :: string
  hi_signature :: string

definition get_hover :: "env \<Rightarrow> string \<Rightarrow> int \<Rightarrow> int \<Rightarrow> hover_info option" where
  "get_hover e code l c =
     (case jedi_help e code l c of
        Raises err \<Rightarrow> None
      | Returns [] \<Rightarrow> None
      | Returns (name # rest) \<Rightarrow>
          (case jn_signatures name of
             Raises err \<Rightarrow> None
           | Returns signatures \<Rightarrow> Some
               \<lparr> hi_name = or_empty (jn_name name),
                 hi_type = or_empty (jn_type name),
                 hi_description = or_empty (jn_description name),
                 hi_docstring = clean_docstring e (call_or_default (jn_docstring name) []),
                 hi_signature = first_signature signatures \<rparr>))"

definition diagnostic_entry :: "parso_error \<Rightarrow> WorkerDiagnostic" where
  "diagnostic_entry err =
     \<lparr> diag_line = pe_line err, diag_column = pe_column err,
       diag_message = pe_message err, diag_severity = SeverityError \<rparr>"

definition get_diagnostics :: "env \<Rightarrow> string \<Rightarrow> WorkerDiagnostic list" where
  "get_diagnostics e code =
     (case parso_iter_errors e code of
        Raises err \<Rightarrow> []
      | Returns errors \<Rightarrow> map diagnostic_entry errors)"

definition definition_entry :: "jedi_name \<Rightarrow> DefinitionResult" where
  "definition_entry d =
     \<lparr> def_name = or_empty (jn_name d), def_line = jn_line d, def_column = jn_column d,
       def_description = or_empty (jn_description d) \<rparr>"

definition get_definitions :: "env \<Rightarrow> string \<Rightarrow> int \<Rightarrow> int \<Rightarrow> DefinitionResult list" where
  "get_definitions e code l c =
     (case jedi_goto e code l c of
        Raises err \<Rightarrow> []
      | Returns definitions \<Rightarrow> map definition_entry definitions)"

subsection \<open>The embedded runtime\<close>

text \<open>
  A value stored with \<open>globals.set\<close>. A Pyodide instance is its global namespace and,
  once the bootstrap script has run in it, the completion limit the script was rendered
  with (the functions of the script are defined from then on).
\<close>

datatype pyval = PyStr string | PyInt int

record pyodide_instance =
  globals :: "string \<rightharpoonup> pyval"
  bootstrapped :: "int option"

datatype ext_call =
    ImportModule
  | LoadPyodide
  | LoadPackage string
  | MicropipInstall string
  | GlobalsSet string pyval
  | RunPython py_code
  | JediComplete string int int
  | JediHelp string int int
  | JediGoto string int int
  | ParsoParse string

text \<open>
  What \<open>JSON.parse\<close> returns for the string a Python function of the bootstrap script
  produced with \<open>json.dumps\<close>: serialisation and parsing are embedded as the identity on
  the value.
\<close>

datatype json =
    JUndefined
  | JDiagnostics "WorkerDiagnostic list"
  | JCompletions "WorkerCompletionItem list"
  | JHover "hover_info option"
  | JDefinitions "DefinitionResult list"

record worker_state =
  pyodide :: "pyodide_instance option"
  jediInitialized :: bool
  loadPyodideFn :: bool
  calls :: "ext_call list"

definition initial_worker :: worker_state where
  "initial_worker =
     \<lparr> pyodide = None, jediInitialized = False, loadPyodideFn = False, calls = [] \<rparr>"

definition MAX_COMPLETIONS :: int where
  "MAX_COMPLETIONS = 50"

definition record_call :: "ext_call \<Rightarrow> worker_state \<Rightarrow> worker_state" where
  "record_call c st = st\<lparr>calls := calls st @ [c]\<rparr>"

definition globals_set :: "string \<Rightarrow> pyval \<Rightarrow> worker_state \<Rightarrow> worker_state" where
  "globals_set name v st =
     record_call (GlobalsSet name v)
       (st\<lparr>pyodide := map_option (\<lambda>p. p\<lparr>globals := (globals p)(name \<mapsto> v)\<rparr>) (pyodide st)\<rparr>)"

text \<open>The install script: two \<open>micropip.install\<close> calls, the second after the first.\<close>

definition run_install :: "env \<Rightarrow> worker_state \<Rightarrow> json outcome \<times> worker_state" where
  "run_install e st =
     (let st1 = record_call (MicropipInstall ''jedi'') st in
      case micropip_install e ''jedi'' of
        Raises err \<Rightarrow> (Raises err, st1)
      | Returns u \<Rightarrow>
          (let st2 = record_call (MicropipInstall ''parso'') st1 in
           case micropip_install e ''parso'' of
             Raises err \<Rightarrow> (Raises err, st2)
           | Returns u \<Rightarrow> (Returns JUndefined, st2)))"

text \<open>
  The bootstrap script: its imports and \<open>jedi.Project(path="/")\<close> may raise; after them
  the five functions are defined in the instance.
\<close>

definition run_bootstrap ::
  "env \<Rightarrow> int \<Rightarrow> pyodide_instance \<Rightarrow> worker_state \<Rightarrow> json outcome \<times> worker_state" where
  "run_bootstrap e maxCompletions p st =
     (case bootstrap_imports e of
        Raises err \<Rightarrow> (Raises err, st)
      | Returns u \<Rightarrow>
          (Returns JUndefined, st\<lparr>pyodide := Some (p\<lparr>bootstrapped := Some maxCompletions\<rparr>)\<rparr>))"

text \<open>
  A call expression reads its arguments from the globals; an unbound name, or a function
  that the instance does not define yet, is a \<open>NameError\<close>.
\<close>

definition run_get_diagnostics ::
  "env \<Rightarrow> pyodide_instance \<Rightarrow> worker_state \<Rightarrow> json outcome \<times> worker_state" where
  "run_get_diagnostics e p st =
     (case (bootstrapped p, globals p ''user_code'') of
        (Some m, Some (PyStr code)) \<Rightarrow>
          (Returns (JDiagnostics (get_diagnostics e code)), record_call (ParsoParse code) st)
      | _ \<Rightarrow> (Raises ''NameError'', st))"

definition run_get_completions ::
  "env \<Rightarrow> pyodide_instance \<Rightarrow> worker_state \<Rightarrow> json outcome \<times> worker_state" where
  "run_get_completions e p st =
     (case (bootstrapped p, globals p ''user_code'', globals p ''user_line'',
            globals p ''user_column'') of
        (Some m, Some (PyStr code), Some (PyInt l), Some (PyInt c)) \<Rightarrow>
          (Returns (JCompletions (get_completions e m code l c)),
           record_call (JediComplete code l c) st)
      | _ \<Rightarrow> (Raises ''NameError'', st))"

definition run_get_hover ::
  "env \<Rightarrow> pyodide_instance \<Rightarrow> worker_state \<Rightarrow> json outcome \<times> worker_state" where
  "run_get_hover e p st =
     (case (bootstrapped p, globals p ''user_code'', globals p ''user_line'',
            globals p ''user_column'') of
        (Some m, Some (PyStr code), Some (PyInt l), Some (PyInt c)) \<Rightarrow>
          (Returns (JHover (get_hover e code l c)), record_call (JediHelp code l c) st)
      | _ \<Rightarrow> (Raises ''NameError'', st))"

definition run_get_definitions ::
  "env \<Rightarrow> pyodide_instance \<Rightarrow> worker_state \<Rightarrow> json outcome \<times> worker_state" where
  "run_get_definitions e p st =
     (case (bootstrapped p, globals p ''user_code'', globals p ''user_line'',
            globals p ''user_column'') of
        (Some m, Some (PyStr code), Some (PyInt l), Some (PyInt c)) \<Rightarrow>
          (Returns (JDefinitions (get_definitions e code l c)),
           record_call (JediGoto code l c) st)
      | _ \<Rightarrow> (Raises ''NameError'', st))"

definition runPythonAsync :: "env \<Rightarrow> py_code \<Rightarrow> worker_state \<Rightarrow> json outcome \<times> worker_state"
where
  "runPythonAsync e code st0 =
     (let st = record_call (RunPython code) st0 in
      case pyodide st of
        None \<Rightarrow> (Raises ''TypeError'', st)
      | Some p \<Rightarrow>
          (case python_fault e code of
             Some err \<Rightarrow> (Raises err, st)
           | None \<Rightarrow>
               (case code of
                  INSTALL_SCRIPT \<Rightarrow> run_install e st
                | createJediBootstrap m \<Rightarrow> run_bootstrap e m p st
                | Call_get_diagnostics \<Rightarrow> run_get_diagnostics e p st
                | Call_get_completions \<Rightarrow> run_get_completions e p st
                | Call_get_hover \<Rightarrow> run_get_hover e p st
                | Call_get_definitions \<Rightarrow> run_get_definitions e p st)))"

definition loadPackage :: "env \<Rightarrow> string \<Rightarrow> worker_state \<Rightarrow> unit outcome \<times> worker_state" where
  "loadPackage e name st = (loadPackage_result e name, record_call (LoadPackage name) st)"

subsection \<open>The functions of the worker script\<close>

text \<open>The loader: the cached one, or the one of the module imported now (and cached).\<close>

definition obtain_loader :: "env \<Rightarrow> worker_state \<Rightarrow> unit outcome \<times> worker_state" where
  "obtain_loader e st =
     (if loadPyodideFn st then (Returns (), st)
      else (case import_module e of
              Raises err \<Rightarrow> (Raises err, record_call ImportModule st)
            | Returns u \<Rightarrow> (Returns (), (record_call ImportModule st)\<lparr>loadPyodideFn := True\<rparr>)))"

text \<open>\<open>pyodide = await loader({ indexURL })\<close>: a fresh instance replaces the old one.\<close>

definition call_loader :: "env \<Rightarrow> worker_state \<Rightarrow> unit outcome \<times> worker_state" where
  "call_loader e st =
     (case loadPyodide e of
        Raises err \<Rightarrow> (Raises err, record_call LoadPyodide st)
      | Returns u \<Rightarrow>
          (Returns (),
           (record_call LoadPyodide st)
             \<lparr>pyodide := Some \<lparr> globals = Map.empty, bootstrapped = None \<rparr>\<rparr>))"

definition initializeJedi :: "env \<Rightarrow> worker_state \<Rightarrow> unit outcome \<times> worker_state" where
  "initializeJedi e st =
     (if jediInitialized st then (Returns (), st)
      else
        (case obtain_loader e st of
           (Raises err, st1) \<Rightarrow> (Raises err, st1)
         | (Returns u, st1) \<Rightarrow>
        (case call_loader e st1 of
           (Raises err, st2) \<Rightarrow> (Raises err, st2)
         | (Returns u, st2) \<Rightarrow>
        (case loadPackage e ''micropip'' st2 of
           (Raises err, st3) \<Rightarrow> (Raises err, st3)
         | (Returns u, st3) \<Rightarrow>
        (case runPythonAsync e INSTALL_SCRIPT st3 of
           (Raises err, st4) \<Rightarrow> (Raises err, st4)
         | (Returns u, st4) \<Rightarrow>
        (case runPythonAsync e (createJediBootstrap MAX_COMPLETIONS) st4 of
           (Raises err, st5) \<Rightarrow> (Raises err, st5)
         | (Returns u, st5) \<Rightarrow> (Returns (), st5\<lparr>jediInitialized := True\<rparr>)))))))"

definition getRuntime :: "worker_state \<Rightarrow> pyodide_instance option" where
  "getRuntime st =
     (case pyodide st of
        None \<Rightarrow> None
      | Some p \<Rightarrow> if \<not> jediInitialized st then None else Some p)"

text \<open>
  In the four analysis functions a result of \<open>JSON.parse\<close> is used at the type the
  function declares; the bootstrap script returns no other.
\<close>

definition analyzeCode :: "env \<Rightarrow> string \<Rightarrow> worker_state \<Rightarrow> WorkerDiagnostic list \<times> worker_state"
where
  "analyzeCode e code st =
     (case getRuntime st of
        None \<Rightarrow> ([], st)
      | Some runtime \<Rightarrow>
          (case runPythonAsync e Call_get_diagnostics (globals_set ''user_code'' (PyStr code) st) of
             (Returns (JDiagnostics ds), st') \<Rightarrow> (ds, st')
           | (r, st') \<Rightarrow> ([], st')))"

definition set_position :: "string \<Rightarrow> int \<Rightarrow> int \<Rightarrow> worker_state \<Rightarrow> worker_state" where
  "set_position code l c st =
     globals_set ''user_column'' (PyInt (max 0 c))
       (globals_set ''user_line'' (PyInt (max 1 l))
          (globals_set ''user_code'' (PyStr code) st))"

definition getCompletions ::
  "env \<Rightarrow> string \<Rightarrow> int \<Rightarrow> int \<Rightarrow> worker_state \<Rightarrow> WorkerCompletionItem list \<times> worker_state"
where
  "getCompletions e code l c st =
     (case getRuntime st of
        None \<Rightarrow> ([], st)
      | Some runtime \<Rightarrow>
          (case runPythonAsync e Call_get_completions (set_position code l c st) of
             (Returns (JCompletions items), st') \<Rightarrow> (items, st')
           | (r, st') \<Rightarrow> ([], st')))"

text \<open>\<open>[a, b].filter(Boolean).join(sep)\<close> on strings: the non-empty ones, joined.\<close>

fun join :: "string \<Rightarrow> string list \<Rightarrow> string" where
  "join sep [] = []"
| "join sep [x] = x"
| "join sep (x # y # ys) = x @ sep @ join sep (y # ys)"

definition blank_line :: string where
  "blank_line = [CHR 0x0A, CHR 0x0A]"

definition render_hover :: "hover_info \<Rightarrow> WorkerHoverPayload" where
  "render_hover parsed =
     (let header = ''**'' @ hi_name parsed @ ''** ('' @ hi_type parsed @ '')'';
          details = join blank_line
                      (filter (\<lambda>s. s \<noteq> []) [hi_signature parsed, hi_docstring parsed]);
          v = (if details \<noteq> [] then header @ blank_line @ details else header)
      in \<lparr> contents_kind = ''markdown'', contents_value = v \<rparr>)"

definition getHover ::
  "env \<Rightarrow> string \<Rightarrow> int \<Rightarrow> int \<Rightarrow> worker_state \<Rightarrow> WorkerHoverPayload option \<times> worker_state"
where
  "getHover e code l c st =
     (case getRuntime st of
        None \<Rightarrow> (None, st)
      | Some runtime \<Rightarrow>
          (case runPythonAsync e Call_get_hover (set_position code l c st) of
             (Returns (JHover None), st') \<Rightarrow> (None, st')
           | (Returns (JHover (Some parsed)), st') \<Rightarrow> (Some (render_hover parsed), st')
           | (r, st') \<Rightarrow> (None, st')))"

definition getDefinitions ::
  "env \<Rightarrow> string \<Rightarrow> int \<Rightarrow> int \<Rightarrow> worker_state \<Rightarrow> DefinitionResult list \<times> worker_state"
where
  "getDefinitions e code l c st =
     (case getRuntime st of
        None \<Rightarrow> ([], st)
      | Some runtime \<Rightarrow>
          (case runPythonAsync e Call_get_definitions (set_position code l c st) of
             (Returns (JDefinitions ds), st') \<Rightarrow> (ds, st')
           | (r, st') \<Rightarrow> ([], st')))"

text \<open>
  The message listener: the responses it posts with \<open>respond\<close>, in order, and the state
  it leaves.
\<close>

fun worker_listener ::
  "env \<Rightarrow> WorkerRequest \<Rightarrow> worker_state \<Rightarrow> WorkerResponse list \<times> worker_state" where
  "worker_listener e (Initialize requestId) st =
     (case initializeJedi e st of
        (Returns u, st') \<Rightarrow> ([Initialized requestId True None], st')
      | (Raises err, st') \<Rightarrow> ([Initialized requestId False (Some err)], st'))"
| "worker_listener e (Analyze requestId code) st =
     (case analyzeCode e code st of
        (diagnostics, st') \<Rightarrow> ([Analysis requestId diagnostics], st'))"
| "worker_listener e (Completion requestId code l c) st =
     (case getCompletions e code l c st of
        (completions, st') \<Rightarrow> ([CompletionResponse requestId completions], st'))"
| "worker_listener e (Hover requestId code l c) st =
     (case getHover e code l c st of
        (hover, st') \<Rightarrow> ([HoverResponse requestId hover], st'))"
| "worker_listener e (Definition requestId code l c) st =
     (case getDefinitions e code l c st of
        (definitions, st') \<Rightarrow> ([DefinitionResponse requestId definitions], st'))"
| "worker_listener e (Unknown ty requestId) st = ([], st)"

subsection \<open>Reachable worker states\<close>

text \<open>
  The states the worker can be in: the state of a fresh worker, and the state after any
  message, whatever the environment answers. \<open>worker_inv\<close> is what holds in all of them.
\<close>

definition bootstrap_limit_ok :: "worker_state \<Rightarrow> bool" where
  "bootstrap_limit_ok st =
     (case pyodide st of
        None \<Rightarrow> True
      | Some p \<Rightarrow> (case bootstrapped p of None \<Rightarrow> True | Some m \<Rightarrow> m = MAX_COMPLETIONS))"

inductive reachable_worker :: "worker_state \<Rightarrow> bool" where
  start: "reachable_worker initial_worker"
| step: "reachable_worker st \<Longrightarrow> reachable_worker (snd (worker_listener e req st))"

definition worker_inv :: "worker_state \<Rightarrow> bool" where
  "worker_inv st =
     (bootstrap_limit_ok st \<and>
      (if jediInitialized st
       then (case pyodide st of None \<Rightarrow> False | Some p \<Rightarrow> bootstrapped p = Some MAX_COMPLETIONS)
       else True))"

text \<open>
  An environment for the examples, in which everything succeeds and Jedi knows one name,
  \<open>foo\<close>, sixty times over as a completion; the worker after a successful Initialize
  request in it; an environment in which the installation of the packages fails, the
  worker after a failed Initialize request in it, and that worker after a successful one.
\<close>

definition sample_name :: jedi_name where
  "sample_name =
     \<lparr> jn_name = Some ''foo'', jn_type = Some ''function'', jn_description = Some ''def foo'',
       jn_signatures = Returns [''foo()''], jn_docstring = Method (Returns (Some [])),
       jn_complete = Some ''o'', jn_line = Some 1, jn_column = Some 4 \<rparr>"

definition env_online :: env where
  "env_online =
     \<lparr> import_module = Returns (), loadPyodide = Returns (),
       loadPackage_result = (\<lambda>n. Returns ()), micropip_install = (\<lambda>n. Returns ()),
       bootstrap_imports = Returns (),
       jedi_complete = (\<lambda>code l c. Returns (replicate 60 sample_name)),
       jedi_help = (\<lambda>code l c. Returns [sample_name]),
       jedi_goto = (\<lambda>code l c. Returns [sample_name]),
       parso_iter_errors = (\<lambda>code. Returns []),
       textwrap_dedent = (\<lambda>s. s),
       python_fault = (\<lambda>code. None) \<rparr>"

definition env_offline :: env where
  "env_offline = env_online\<lparr>import_module := Raises ''TypeError: Failed to fetch''\<rparr>"

definition ready_worker :: worker_state where
  "ready_worker = snd (worker_listener env_online (Initialize ''initialize-0-1'') initial_worker)"

definition bootstrap_succeeds :: "env \<Rightarrow> bool" where
  "bootstrap_succeeds e =
     (import_module e = Returns () \<and> loadPyodide e = Returns () \<and>
      loadPackage_result e ''micropip'' = Returns () \<and>
      micropip_install e ''jedi'' = Returns () \<and> micropip_install e ''parso'' = Returns () \<and>
      bootstrap_imports e = Returns () \<and>
      python_fault e INSTALL_SCRIPT = None \<and>
      python_fault e (createJediBootstrap MAX_COMPLETIONS) = None)"

text \<open>
  The calls of one whole run of the bootstrap of \<open>initializeJedi\<close>, in the order of the
  script: the import of the Pyodide module unless the loader is cached, the loader,
  \<open>loadPackage("micropip")\<close>, the install script with its two installations, and the
  bootstrap script.
\<close>

definition bootstrap_calls :: "worker_state \<Rightarrow> ext_call list" where
  "bootstrap_calls st =
     (if loadPyodideFn st then [] else [ImportModule]) @
     [LoadPyodide, LoadPackage ''micropip'', RunPython INSTALL_SCRIPT,
      MicropipInstall ''jedi'', MicropipInstall ''parso'',
      RunPython (createJediBootstrap MAX_COMPLETIONS)]"

definition env_install_fails :: env where
  "env_install_fails = env_online\<lparr>micropip_install := (\<lambda>n. Raises ''ValueError: no wheel'')\<rparr>"

definition failed_worker :: worker_state where
  "failed_worker =
     \<lparr> pyodide = Some \<lparr> globals = Map.empty, bootstrapped = None \<rparr>,
       jediInitialized = False, loadPyodideFn = True,
       calls = [ImportModule, LoadPyodide, LoadPackage ''micropip'', RunPython INSTALL_SCRIPT,
                MicropipInstall ''jedi''] \<rparr>"

definition recovered_worker :: worker_state where
  "recovered_worker =
     \<lparr> pyodide = Some \<lparr> globals = Map.empty, bootstrapped = Some 50 \<rparr>,
       jediInitialized = True, loadPyodideFn = True,
       calls = [ImportModule, LoadPyodide, LoadPackage ''micropip'', RunPython INSTALL_SCRIPT,
                MicropipInstall ''jedi'',
                LoadPyodide, LoadPackage ''micropip'', RunPython INSTALL_SCRIPT,
                MicropipInstall ''jedi'', MicropipInstall ''parso'',
                RunPython (createJediBootstrap 50)] \<rparr>"

section \<open>The bridge of the editor component\<close>

text \<open>
  The editor component keeps its bridge to the worker in refs and React state. They are
  the fields of \<open>bridge\<close>, together with what the page holds for it: the timers set with
  \<open>window.setTimeout\<close>, the messages posted to workers, the workers terminated, the
  markers of the model, and the log of every call of a promise's \<open>resolve\<close> (a promise
  takes the value of the first). \<open>editorRef\<close> stands for the two refs set when the editor
  is mounted, \<open>editorModel\<close> says whether the editor has a model.

  Each call of \<open>callWorker\<close> that reaches \<open>new Promise\<close> creates one promise and one
  timer; both are named by the number of the call (\<open>nextCall\<close>), the resolver stored in
  the pending table is the closure of that call, and \<open>issued\<close> lists the calls made with
  the request id of each. \<open>Date.now()\<close> and the clock of the timers are the parameter
  \<open>now\<close> of the functions, in milliseconds.
\<close>

datatype WorkerRequestType =
  Req_initialize | Req_analyze | Req_completion | Req_hover | Req_definition

record payload =
  payload_code :: "string option"
  payload_line :: "int option"
  payload_column :: "int option"

record posted_message =
  msg_type :: WorkerRequestType
  msg_data :: payload
  msg_requestId :: string

record timer =
  due :: nat
  timer_requestId :: string

datatype MarkerSeverity = MarkerError | MarkerWarning

record marker =
  marker_severity :: MarkerSeverity
  startLineNumber :: int
  startColumn :: int
  endLineNumber :: int
  endColumn :: int
  marker_message :: string

record bridge =
  editorRef :: bool
  editorModel :: bool
  workerRef :: "nat option"
  isWorkerReady :: bool
  workerReadyRef :: bool
  requestIdCounter :: nat
  pendingRequests :: "string \<rightharpoonup> nat"
  providerDisposables :: "string list"
  cleanupWorker :: "nat option"
  timers :: "nat \<rightharpoonup> timer"
  nextCall :: nat
  nextWorker :: nat
  resolved :: "(nat \<times> WorkerResponse option) list"
  issued :: "(nat \<times> string) list"
  posted :: "(nat \<times> posted_message) list"
  terminated :: "nat list"
  markers :: "marker list"

definition initial_bridge :: bridge where
  "initial_bridge =
     \<lparr> editorRef = False, editorModel = True, workerRef = None, isWorkerReady = False,
       workerReadyRef = False, requestIdCounter = 0, pendingRequests = Map.empty,
       providerDisposables = [], cleanupWorker = None, timers = Map.empty, nextCall = 0,
       nextWorker = 0, resolved = [], issued = [], posted = [], terminated = [], markers = [] \<rparr>"

datatype call_result = ResolvedNull | Promise nat

text \<open>
  The template literal of the request id: the name of the type, and the decimal digits of
  the two numbers.
\<close>

fun type_name :: "WorkerRequestType \<Rightarrow> string" where
  "type_name Req_initialize = ''initialize''"
| "type_name Req_analyze = ''analyze''"
| "type_name Req_completion = ''completion''"
| "type_name Req_hover = ''hover''"
| "type_name Req_definition = ''definition''"

definition digit :: "nat \<Rightarrow> char" where
  "digit d = ''0123456789'' ! d"

fun show_nat :: "nat \<Rightarrow> string" where
  "show_nat n = (if n < 10 then [digit n] else show_nat (n div 10) @ [digit (n mod 10)])"

definition make_requestId :: "WorkerRequestType \<Rightarrow> nat \<Rightarrow> nat \<Rightarrow> string" where
  "make_requestId ty now counter = type_name ty @ ''-'' @ show_nat now @ ''-'' @ show_nat counter"

text \<open>
  \<open>requestIdCounter.current += 1\<close> on a JavaScript number: exact below \<open>2 ^ 53\<close>, where
  the sum rounds back to \<open>2 ^ 53\<close>.
\<close>

definition increment :: "nat \<Rightarrow> nat" where
  "increment n = (if n < 2 ^ 53 then n + 1 else n)"

definition callWorker ::
  "WorkerRequestType \<Rightarrow> payload \<Rightarrow> nat \<Rightarrow> bridge \<Rightarrow> call_result \<times> bridge" where
  "callWorker ty data now s =
     (case workerRef s of
        None \<Rightarrow> (ResolvedNull, s)
      | Some worker \<Rightarrow>
          (let counter = increment (requestIdCounter s);
               requestId = make_requestId ty now counter;
               h = nextCall s
           in (Promise h,
               s\<lparr> requestIdCounter := counter,
                  nextCall := Suc h,
                  timers := (timers s)(h \<mapsto> \<lparr> due = now + 5000, timer_requestId = requestId \<rparr>),
                  pendingRequests := (pendingRequests s)(requestId \<mapsto> h),
                  issued := issued s @ [(h, requestId)],
                  posted := posted s @
                    [(worker, \<lparr> msg_type = ty, msg_data = data, msg_requestId = requestId \<rparr>)] \<rparr>)))"

text \<open>The callback given to \<open>setTimeout\<close> by call \<open>h\<close>, and the timer running it once it is due.\<close>

definition timeout_callback :: "nat \<Rightarrow> string \<Rightarrow> bridge \<Rightarrow> bridge" where
  "timeout_callback h requestId s =
     (if pendingRequests s requestId \<noteq> None
      then s\<lparr> pendingRequests := (pendingRequests s)(requestId := None),
              resolved := resolved s @ [(h, None)] \<rparr>
      else s)"

definition timer_fires :: "nat \<Rightarrow> nat \<Rightarrow> bridge \<Rightarrow> bridge" where
  "timer_fires now h s =
     (case timers s h of
        None \<Rightarrow> s
      | Some t \<Rightarrow>
          if now < due t then s
          else timeout_callback h (timer_requestId t) (s\<lparr>timers := (timers s)(h := None)\<rparr>))"

text \<open>The resolver stored by call \<open>h\<close>: \<open>clearTimeout\<close>, then \<open>resolve(response)\<close>.\<close>

definition resolver :: "nat \<Rightarrow> WorkerResponse \<Rightarrow> bridge \<Rightarrow> bridge" where
  "resolver h response s =
     s\<lparr> timers := (timers s)(h := None), resolved := resolved s @ [(h, Some response)] \<rparr>"

text \<open>
  \<open>worker.onmessage\<close>, its two \<open>if\<close> statements in turn: the resolver of the request id
  is taken out of the table and run, and an \<open>initialized\<close> message sets the readiness.
\<close>

definition deliver :: "WorkerResponse \<Rightarrow> bridge \<Rightarrow> bridge" where
  "deliver message s =
     (if response_id message \<noteq> []
      then (case pendingRequests s (response_id message) of
              None \<Rightarrow> s
            | Some h \<Rightarrow>
                resolver h message
                  (s\<lparr>pendingRequests := (pendingRequests s)(response_id message := None)\<rparr>))
      else s)"

definition note_initialized :: "WorkerResponse \<Rightarrow> bridge \<Rightarrow> bridge" where
  "note_initialized message s =
     (case message of
        Initialized rid success err \<Rightarrow> s\<lparr>isWorkerReady := success\<rparr>
      | _ \<Rightarrow> s)"

definition onmessage :: "WorkerResponse \<Rightarrow> bridge \<Rightarrow> bridge" where
  "onmessage message s = note_initialized message (deliver message s)"

definition disposeProviders :: "bridge \<Rightarrow> bridge" where
  "disposeProviders s = s\<lparr>providerDisposables := []\<rparr>"

definition empty_payload :: payload where
  "empty_payload = \<lparr> payload_code = None, payload_line = None, payload_column = None \<rparr>"

text \<open>
  The effect on \<open>language\<close> (\<open>python\<close> says whether it is \<open>"python"\<close>) and the cleanup
  it returns; \<open>cleanupWorker\<close> is the worker captured by that cleanup, if the effect
  returned one.
\<close>

definition effect_setup :: "bool \<Rightarrow> nat \<Rightarrow> bridge \<Rightarrow> bridge" where
  "effect_setup python now s =
     (if \<not> python then (disposeProviders s)\<lparr>cleanupWorker := None\<rparr>
      else
        (let worker = nextWorker s;
             s1 = s\<lparr>nextWorker := Suc worker, workerRef := Some worker\<rparr>
         in (snd (callWorker Req_initialize empty_payload now s1))\<lparr>cleanupWorker := Some worker\<rparr>))"

definition effect_cleanup :: "bridge \<Rightarrow> bridge" where
  "effect_cleanup s =
     (case cleanupWorker s of
        None \<Rightarrow> s
      | Some worker \<Rightarrow>
          (disposeProviders (s\<lparr>pendingRequests := Map.empty, isWorkerReady := False\<rparr>))
            \<lparr> terminated := terminated s @ [worker], workerRef := None, cleanupWorker := None \<rparr>)"

definition sync_ready :: "bridge \<Rightarrow> bridge" where
  "sync_ready s = s\<lparr>workerReadyRef := isWorkerReady s\<rparr>"

definition diagnostic_marker :: "WorkerDiagnostic \<Rightarrow> marker" where
  "diagnostic_marker d =
     \<lparr> marker_severity =
         (if diag_severity d = SeverityError then MarkerError else MarkerWarning),
       startLineNumber = diag_line d, startColumn = diag_column d,
       endLineNumber = diag_line d, endColumn = diag_column d + 1,
       marker_message = diag_message d \<rparr>"

definition updateDiagnostics :: "WorkerDiagnostic list \<Rightarrow> bridge \<Rightarrow> bridge" where
  "updateDiagnostics diagnostics s =
     (if \<not> editorRef s then s
      else if \<not> editorModel s then s
      else s\<lparr>markers := map diagnostic_marker diagnostics\<rparr>)"

definition analysis_then :: "WorkerResponse option \<Rightarrow> bridge \<Rightarrow> bridge" where
  "analysis_then response s =
     (case response of
        Some (Analysis rid diagnostics) \<Rightarrow> updateDiagnostics diagnostics s
      | _ \<Rightarrow> s)"

text \<open>
  \<open>handleEditorChange\<close>: the promise whose \<open>then\<close> callback is \<open>analysis_then\<close>, if a
  call was made (\<open>onChange\<close> belongs to the parent component and is not embedded).
\<close>

definition handleEditorChange :: "string option \<Rightarrow> nat \<Rightarrow> bridge \<Rightarrow> call_result option \<times> bridge"
where
  "handleEditorChange v now s =
     (case v of
        None \<Rightarrow> (None, s)
      | Some code \<Rightarrow>
          if isWorkerReady s \<and> code \<noteq> []
          then (case callWorker Req_analyze
                       \<lparr> payload_code = Some code, payload_line = None, payload_column = None \<rparr>
                       now s of
                  (r, s') \<Rightarrow> (Some r, s'))
          else (None, s))"

datatype CompletionItemKind =
  Kind_Function | Kind_Class | Kind_Module | Kind_Field | Kind_Property | Kind_Keyword | Kind_Text

record IRange =
  range_startLineNumber :: int
  range_startColumn :: int
  range_endLineNumber :: int
  range_endColumn :: int

record suggestion =
  label :: string
  kind :: CompletionItemKind
  detail :: string
  documentation :: "string option"
  insertText :: string
  filterText :: string
  replace_range :: IRange

definition completion_kind :: "string \<Rightarrow> CompletionItemKind" where
  "completion_kind ty =
     (if ty = ''function'' \<or> ty = ''method'' then Kind_Function
      else if ty = ''class'' then Kind_Class
      else if ty = ''module'' then Kind_Module
      else if ty = ''instance'' then Kind_Field
      else if ty = ''param'' \<or> ty = ''property'' then Kind_Property
      else if ty = ''keyword'' \<or> ty = ''statement'' then Kind_Keyword
      else Kind_Text)"

definition to_suggestion :: "IRange \<Rightarrow> WorkerCompletionItem \<Rightarrow> suggestion" where
  "to_suggestion r item =
     \<lparr> label = item_name item,
       kind = completion_kind (item_type item),
       detail = (if item_signature item \<noteq> [] then item_signature item else item_description item),
       documentation = (if item_docstring item \<noteq> [] then Some (item_docstring item) else None),
       insertText = item_name item,
       filterText = item_name item,
       replace_range = r \<rparr>"

text \<open>
  \<open>provideCompletionItems\<close> after its \<open>await\<close>: \<open>lineNumber\<close> and \<open>column\<close> are the
  position, \<open>wordStart\<close> the start column of the word before it, \<open>response\<close> what the
  promise resolved to.
\<close>

definition completion_then :: "int \<Rightarrow> int \<Rightarrow> int \<Rightarrow> WorkerResponse option \<Rightarrow> suggestion list"
where
  "completion_then lineNumber column wordStart response =
     (case response of
        Some (CompletionResponse rid items) \<Rightarrow>
          map (to_suggestion
                 \<lparr> range_startLineNumber = lineNumber, range_startColumn = wordStart,
                   range_endLineNumber = lineNumber, range_endColumn = column \<rparr>) items
      | _ \<Rightarrow> [])"

datatype 'a awaited = Done 'a | Awaiting nat

definition provideCompletionItems ::
  "string \<Rightarrow> int \<Rightarrow> int \<Rightarrow> int \<Rightarrow> nat \<Rightarrow> bridge \<Rightarrow> suggestion list awaited \<times> bridge" where
  "provideCompletionItems code lineNumber column wordStart now s =
     (if \<not> workerReadyRef s then (Done [], s)
      else
        (case callWorker Req_completion
                \<lparr> payload_code = Some code, payload_line = Some lineNumber,
                  payload_column = Some (column - 1) \<rparr> now s of
           (ResolvedNull, s') \<Rightarrow> (Done (completion_then lineNumber column wordStart None), s')
         | (Promise h, s') \<Rightarrow> (Awaiting h, s')))"

record IMarkdownString =
  markdown_value :: string
  isTrusted :: bool

definition hover_then :: "WorkerResponse option \<Rightarrow> IMarkdownString list option" where
  "hover_then response =
     (case response of
        Some (HoverResponse rid (Some d)) \<Rightarrow>
          Some [\<lparr> markdown_value = contents_value d, isTrusted = False \<rparr>]
      | _ \<Rightarrow> None)"

definition provideHover ::
  "string \<Rightarrow> int \<Rightarrow> int \<Rightarrow> nat \<Rightarrow> bridge \<Rightarrow> IMarkdownString list option awaited \<times> bridge" where
  "provideHover code lineNumber column now s =
     (if \<not> workerReadyRef s then (Done None, s)
      else
        (case callWorker Req_hover
                \<lparr> payload_code = Some code, payload_line = Some lineNumber,
                  payload_column = Some (column - 1) \<rparr> now s of
           (ResolvedNull, s') \<Rightarrow> (Done (hover_then None), s')
         | (Promise h, s') \<Rightarrow> (Awaiting h, s')))"

definition registerProviders :: "bridge \<Rightarrow> bridge" where
  "registerProviders s = (disposeProviders s)\<lparr>providerDisposables := [''completion'', ''hover'']\<rparr>"

definition handleEditorDidMount :: "bool \<Rightarrow> bridge \<Rightarrow> bridge" where
  "handleEditorDidMount python s =
     (if python then registerProviders (s\<lparr>editorRef := True\<rparr>) else s\<lparr>editorRef := True\<rparr>)"

text \<open>
  The request the worker reads from a posted message, when the message has the fields
  the worker's type asks of its kind.
\<close>

definition as_worker_request :: "posted_message \<Rightarrow> WorkerRequest option" where
  "as_worker_request m =
     (let rid = msg_requestId m; d = msg_data m in
      case msg_type m of
        Req_initialize \<Rightarrow> Some (Initialize rid)
      | Req_analyze \<Rightarrow>
          (case payload_code d of Some code \<Rightarrow> Some (Analyze rid code) | None \<Rightarrow> None)
      | Req_completion \<Rightarrow>
          (case (payload_code d, payload_line d, payload_column d) of
             (Some code, Some l, Some c) \<Rightarrow> Some (Completion rid code l c) | _ \<Rightarrow> None)
      | Req_hover \<Rightarrow>
          (case (payload_code d, payload_line d, payload_column d) of
             (Some code, Some l, Some c) \<Rightarrow> Some (Hover rid code l c) | _ \<Rightarrow> None)
      | Req_definition \<Rightarrow>
          (case (payload_code d, payload_line d, payload_column d) of
             (Some code, Some l, Some c) \<Rightarrow> Some (Definition rid code l c) | _ \<Rightarrow> None))"

text \<open>
  What can happen to the bridge, one event at a time: a call, a timer coming due, a
  message of the worker, the effects of React, and the handlers of the editor.
\<close>

datatype event =
    CallWorker WorkerRequestType payload nat
  | TimerFires nat nat
  | Message WorkerResponse
  | EffectSetup bool nat
  | EffectCleanup
  | SyncReady
  | EditorDidMount bool
  | EditorChange "string option" nat
  | AnalysisThen "WorkerResponse option"
  | CompletionAsked string int int int nat
  | HoverAsked string int int nat

fun step :: "event \<Rightarrow> bridge \<Rightarrow> bridge" where
  "step (CallWorker ty d now) s = snd (callWorker ty d now s)"
| "step (TimerFires now h) s = timer_fires now h s"
| "step (Message m) s = onmessage m s"
| "step (EffectSetup python now) s = effect_setup python now s"
| "step EffectCleanup s = effect_cleanup s"
| "step SyncReady s = sync_ready s"
| "step (EditorDidMount python) s = handleEditorDidMount python s"
| "step (EditorChange v now) s = snd (handleEditorChange v now s)"
| "step (AnalysisThen response) s = analysis_then response s"
| "step (CompletionAsked code l c w now) s = snd (provideCompletionItems code l c w now s)"
| "step (HoverAsked code l c now) s = snd (provideHover code l c now s)"

fun run :: "event list \<Rightarrow> bridge \<Rightarrow> bridge" where
  "run [] s = s"
| "run (ev # evs) s = run evs (step ev s)"

text \<open>
  What holds of the bridge in every state it reaches: the calls made have distinct
  numbers and distinct request ids; a live timer and a pending entry belong to a call
  made; a pending entry has its timer still set; a promise once resolved has its timer
  gone, and is logged once.
\<close>

definition issued_ok :: "bridge \<Rightarrow> bool" where
  "issued_ok s =
     ((\<forall>h rid. (h, rid) \<in> set (issued s) \<longrightarrow>
         h < nextCall s \<and> (\<exists>ty n c. rid = make_requestId ty n c \<and> c \<le> requestIdCounter s)) \<and>
      distinct (map fst (issued s)) \<and> distinct (map snd (issued s)))"

definition timers_ok :: "bridge \<Rightarrow> bool" where
  "timers_ok s = (\<forall>h t. timers s h = Some t \<longrightarrow> (h, timer_requestId t) \<in> set (issued s))"

definition pending_ok :: "bridge \<Rightarrow> bool" where
  "pending_ok s =
     (\<forall>rid h. pendingRequests s rid = Some h \<longrightarrow> (h, rid) \<in> set (issued s) \<and> timers s h \<noteq> None)"

definition resolved_ok :: "bridge \<Rightarrow> bool" where
  "resolved_ok s =
     ((\<forall>h v. (h, v) \<in> set (resolved s) \<longrightarrow> timers s h = None \<and> h \<in> fst ` set (issued s)) \<and>
      distinct (map fst (resolved s)))"

definition bridge_inv :: "bridge \<Rightarrow> bool" where
  "bridge_inv s = (issued_ok s \<and> timers_ok s \<and> pending_ok s \<and> resolved_ok s)"

text \<open>
  The fields of the bridge that the correlation of requests and responses lives in.
\<close>

definition core ::
  "bridge \<Rightarrow> (nat \<times> string) list \<times> (nat \<rightharpoonup> timer) \<times> (string \<rightharpoonup> nat) \<times>
     (nat \<times> WorkerResponse option) list \<times> nat \<times> nat" where
  "core s = (issued s, timers s, pendingRequests s, resolved s, nextCall s, requestIdCounter s)"

text \<open>
  A request id is retired when a call was made with it and the table has no entry for
  it any more.
\<close>

definition retired :: "string \<Rightarrow> bridge \<Rightarrow> bool" where
  "retired rid s = (pendingRequests s rid = None \<and> rid \<in> snd ` set (issued s))"

text \<open>
  Call \<open>h\<close> is waiting: its timer is set, for the time \<open>deadline\<close>, and the table holds its
  resolver under its request id. An event is quiet for the call when it is neither the
  cleanup of the effect, nor a message with the request id of the call, nor the timer of
  the call coming due.
\<close>

definition waiting :: "nat \<Rightarrow> string \<Rightarrow> nat \<Rightarrow> bridge \<Rightarrow> bool" where
  "waiting h rid deadline s =
     (timers s h = Some \<lparr> due = deadline, timer_requestId = rid \<rparr> \<and>
      pendingRequests s rid = Some h)"

fun quiet :: "nat \<Rightarrow> string \<Rightarrow> nat \<Rightarrow> event \<Rightarrow> bool" where
  "quiet h rid deadline EffectCleanup = False"
| "quiet h rid deadline (Message m) = (response_id m \<noteq> rid)"
| "quiet h rid deadline (TimerFires now h') = (h' \<noteq> h \<or> now < deadline)"
| "quiet h rid deadline ev = True"

text \<open>
  Call \<open>h\<close> is abandoned: its promise is not resolved, no entry of the table holds its
  resolver, and the request id of its timer, if the timer is still set, is retired.
\<close>

definition abandoned :: "nat \<Rightarrow> bridge \<Rightarrow> bool" where
  "abandoned h s =
     (h \<notin> fst ` set (resolved s) \<and> h < nextCall s \<and>
      (\<forall>rid. pendingRequests s rid \<noteq> Some h) \<and>
      (case timers s h of None \<Rightarrow> True | Some t \<Rightarrow> retired (timer_requestId t) s))"

text \<open>
  A page for the examples: the editor is mounted for Python at time 0 (worker 0 is
  spawned and call 0, \<open>initialize-0-1\<close>, is sent); the worker answers that it is ready;
  the editor asks for completions at time 100 (call 1, \<open>completion-100-2\<close>).
\<close>

definition spawned_bridge :: bridge where
  "spawned_bridge = run [EffectSetup True 0] initial_bridge"

definition asking_bridge :: bridge where
  "asking_bridge =
     run [Message (Initialized ''initialize-0-1'' True None), SyncReady,
          CompletionAsked ''fo'' 1 3 1 100] spawned_bridge"

section \<open>Properties of the worker\<close>

subsection \<open>The states the worker reaches\<close>

text \<open>
  In every state the worker reaches, an instance that has run the bootstrap script has
  run it with the limit \<open>MAX_COMPLETIONS\<close>, and the flag \<open>jediInitialized\<close> is set only
  when the instance has run it.
\<close>

lemma completion_loop_length:
  "completion_loop e xs acc = Returns rs \<Longrightarrow> length rs = length acc + length xs"
  by (induction xs arbitrary: acc) (auto split: outcome.splits)

lemma length_slice_to: "0 \<le> n \<Longrightarrow> length (slice_to n xs) \<le> nat n"
  by (simp add: slice_to_def)

lemma get_completions_length:
  "0 \<le> m \<Longrightarrow> length (get_completions e m code l c) \<le> nat m"
  using length_slice_to [of m]
  by (auto simp: get_completions_def split: outcome.splits dest!: completion_loop_length)

lemma pyodide_record_call [simp]: "pyodide (record_call c st) = pyodide st"
  by (simp add: record_call_def)

lemma jediInitialized_record_call [simp]: "jediInitialized (record_call c st) = jediInitialized st"
  by (simp add: record_call_def)

lemma calls_record_call [simp]: "calls (record_call c st) = calls st @ [c]"
  by (simp add: record_call_def)

lemma limit_record_call [simp]: "bootstrap_limit_ok (record_call c st) = bootstrap_limit_ok st"
  by (simp add: bootstrap_limit_ok_def)

lemma limit_globals_set [simp]: "bootstrap_limit_ok (globals_set n v st) = bootstrap_limit_ok st"
  by (cases "pyodide st") (simp_all add: globals_set_def bootstrap_limit_ok_def)

lemma limit_run_analysis:
  "code \<in> {Call_get_diagnostics, Call_get_completions, Call_get_hover, Call_get_definitions, INSTALL_SCRIPT} \<Longrightarrow>
   bootstrap_limit_ok st \<Longrightarrow> bootstrap_limit_ok (snd (runPythonAsync e code st))"
  by (auto simp: runPythonAsync_def Let_def run_install_def run_get_diagnostics_def
      run_get_completions_def run_get_hover_def run_get_definitions_def
      split: option.splits outcome.splits pyval.splits)

lemma limit_run_bootstrap:
  "bootstrap_limit_ok st \<Longrightarrow>
   bootstrap_limit_ok (snd (runPythonAsync e (createJediBootstrap MAX_COMPLETIONS) st))"
  by (auto simp: runPythonAsync_def Let_def run_bootstrap_def bootstrap_limit_ok_def
      split: option.splits outcome.splits)

lemma limit_obtain_loader:
  "obtain_loader e s = (r, s') \<Longrightarrow> bootstrap_limit_ok s \<Longrightarrow> bootstrap_limit_ok s'"
  by (auto simp: obtain_loader_def bootstrap_limit_ok_def record_call_def
      split: outcome.splits if_splits)

lemma limit_call_loader:
  "call_loader e s = (r, s') \<Longrightarrow> bootstrap_limit_ok s \<Longrightarrow> bootstrap_limit_ok s'"
  by (auto simp: call_loader_def bootstrap_limit_ok_def record_call_def split: outcome.splits)

lemma limit_loadPackage:
  "loadPackage e n s = (r, s') \<Longrightarrow> bootstrap_limit_ok s \<Longrightarrow> bootstrap_limit_ok s'"
  by (auto simp: loadPackage_def)

lemma limit_run_install:
  "runPythonAsync e INSTALL_SCRIPT s = (r, s') \<Longrightarrow> bootstrap_limit_ok s \<Longrightarrow> bootstrap_limit_ok s'"
  using limit_run_analysis [of INSTALL_SCRIPT s e] by simp

lemma limit_run_bootstrap':
  "runPythonAsync e (createJediBootstrap MAX_COMPLETIONS) s = (r, s') \<Longrightarrow>
   bootstrap_limit_ok s \<Longrightarrow> bootstrap_limit_ok s'"
  using limit_run_bootstrap [of s e] by simp

lemma limit_initializeJedi:
  assumes "initializeJedi e st = (r, st')" and "bootstrap_limit_ok st"
  shows "bootstrap_limit_ok st'"
proof (cases "jediInitialized st")
  case True
  with assms show ?thesis by (simp add: initializeJedi_def)
next
  case False
  obtain r1 s1 where o1: "obtain_loader e st = (r1, s1)" by (cases "obtain_loader e st")
  obtain r2 s2 where o2: "call_loader e s1 = (r2, s2)" by (cases "call_loader e s1")
  obtain r3 s3 where o3: "loadPackage e ''micropip'' s2 = (r3, s3)"
    by (cases "loadPackage e ''micropip'' s2")
  obtain r4 s4 where o4: "runPythonAsync e INSTALL_SCRIPT s3 = (r4, s4)"
    by (cases "runPythonAsync e INSTALL_SCRIPT s3")
  obtain r5 s5 where o5: "runPythonAsync e (createJediBootstrap MAX_COMPLETIONS) s4 = (r5, s5)"
    by (cases "runPythonAsync e (createJediBootstrap MAX_COMPLETIONS) s4")
  have b1: "bootstrap_limit_ok s1" using limit_obtain_loader [OF o1] assms(2) .
  have b2: "bootstrap_limit_ok s2" using limit_call_loader [OF o2 b1] .
  have b3: "bootstrap_limit_ok s3" using limit_loadPackage [OF o3 b2] .
  have b4: "bootstrap_limit_ok s4" using limit_run_install [OF o4 b3] .
  have b5: "bootstrap_limit_ok s5" using limit_run_bootstrap' [OF o5 b4] .
  have b6: "bootstrap_limit_ok (s5\<lparr>jediInitialized := True\<rparr>)"
    using b5 by (simp add: bootstrap_limit_ok_def)
  from assms(1) False o1 o2 o3 o4 o5 have "st' \<in> {s1, s2, s3, s4, s5, s5\<lparr>jediInitialized := True\<rparr>}"
    by (auto simp: initializeJedi_def split: outcome.splits)
  with b1 b2 b3 b4 b5 b6 show ?thesis by auto
qed

text \<open>A successful initialisation leaves a bootstrapped instance and the flag set.\<close>

lemma run_bootstrap_Returns:
  "runPythonAsync e (createJediBootstrap m) s = (Returns u, s') \<Longrightarrow>
   \<exists>p. pyodide s' = Some p \<and> bootstrapped p = Some m"
  by (auto simp: runPythonAsync_def Let_def run_bootstrap_def split: option.splits outcome.splits)

lemma initializeJedi_Returns:
  assumes "initializeJedi e st = (Returns u, st')" and "worker_inv st"
  shows "jediInitialized st' \<and> (\<exists>p. pyodide st' = Some p \<and> bootstrapped p = Some MAX_COMPLETIONS)"
proof (cases "jediInitialized st")
  case True
  with assms show ?thesis by (auto simp: initializeJedi_def worker_inv_def split: option.splits)
next
  case False
  with assms(1) obtain s4 s5 u' where
    "runPythonAsync e (createJediBootstrap MAX_COMPLETIONS) s4 = (Returns u', s5)"
    "st' = s5\<lparr>jediInitialized := True\<rparr>"
    by (auto simp: initializeJedi_def split: outcome.splits prod.splits)
  then show ?thesis using run_bootstrap_Returns by fastforce
qed

lemma flag_obtain_loader: "jediInitialized (snd (obtain_loader e s)) = jediInitialized s"
  by (simp add: obtain_loader_def split: outcome.splits)

lemma flag_call_loader: "jediInitialized (snd (call_loader e s)) = jediInitialized s"
  by (simp add: call_loader_def split: outcome.splits)

lemma flag_loadPackage: "jediInitialized (snd (loadPackage e n s)) = jediInitialized s"
  by (simp add: loadPackage_def)

lemma flag_runPythonAsync: "jediInitialized (snd (runPythonAsync e code s)) = jediInitialized s"
  by (cases code)
     (auto simp: runPythonAsync_def Let_def run_install_def run_bootstrap_def
        run_get_diagnostics_def run_get_completions_def run_get_hover_def
        run_get_definitions_def
        split: option.splits outcome.splits pyval.splits)

lemma initializeJedi_Raises:
  assumes "initializeJedi e st = (Raises err, st')"
  shows "\<not> jediInitialized st'"
proof (cases "jediInitialized st")
  case True
  with assms show ?thesis by (simp add: initializeJedi_def)
next
  case False
  obtain r1 s1 where o1: "obtain_loader e st = (r1, s1)" by (cases "obtain_loader e st")
  obtain r2 s2 where o2: "call_loader e s1 = (r2, s2)" by (cases "call_loader e s1")
  obtain r3 s3 where o3: "loadPackage e ''micropip'' s2 = (r3, s3)"
    by (cases "loadPackage e ''micropip'' s2")
  obtain r4 s4 where o4: "runPythonAsync e INSTALL_SCRIPT s3 = (r4, s4)"
    by (cases "runPythonAsync e INSTALL_SCRIPT s3")
  obtain r5 s5 where o5: "runPythonAsync e (createJediBootstrap MAX_COMPLETIONS) s4 = (r5, s5)"
    by (cases "runPythonAsync e (createJediBootstrap MAX_COMPLETIONS) s4")
  have f1: "\<not> jediInitialized s1" using flag_obtain_loader [of e st] o1 False by simp
  have f2: "\<not> jediInitialized s2" using flag_call_loader [of e s1] o2 f1 by simp
  have f3: "\<not> jediInitialized s3" using flag_loadPackage [of e "''micropip''" s2] o3 f2 by simp
  have f4: "\<not> jediInitialized s4" using flag_runPythonAsync [of e INSTALL_SCRIPT s3] o4 f3 by simp
  have f5: "\<not> jediInitialized s5" using flag_runPythonAsync [of e "createJediBootstrap MAX_COMPLETIONS" s4] o5 f4 by simp
  from assms False o1 o2 o3 o4 o5 have "st' \<in> {s1, s2, s3, s4, s5}"
    by (auto simp: initializeJedi_def split: outcome.splits)
  with f1 f2 f3 f4 f5 show ?thesis by auto
qed

lemma pyodide_runPythonAsync:
  "code \<in> {Call_get_diagnostics, Call_get_completions, Call_get_hover, Call_get_definitions} \<Longrightarrow>
   pyodide (snd (runPythonAsync e code s)) = pyodide s"
  by (auto simp: runPythonAsync_def Let_def run_get_diagnostics_def
      run_get_completions_def run_get_hover_def run_get_definitions_def
      split: option.splits outcome.splits pyval.splits)

lemma inv_globals_set [simp]: "worker_inv (globals_set n v st) = worker_inv st"
  by (cases "pyodide st") (simp_all add: worker_inv_def globals_set_def record_call_def bootstrap_limit_ok_def)

lemma inv_set_position [simp]: "worker_inv (set_position code l c st) = worker_inv st"
  by (simp add: set_position_def)

lemma inv_run_analysis:
  assumes "code \<in> {Call_get_diagnostics, Call_get_completions, Call_get_hover, Call_get_definitions}"
    and "worker_inv s"
  shows "worker_inv (snd (runPythonAsync e code s))"
  using assms pyodide_runPythonAsync [OF assms(1), of e s] flag_runPythonAsync [of e code s]
  by (simp add: worker_inv_def bootstrap_limit_ok_def)

lemma inv_analyzeCode: "worker_inv st \<Longrightarrow> worker_inv (snd (analyzeCode e code st))"
  using inv_run_analysis [of Call_get_diagnostics "globals_set ''user_code'' (PyStr code) st" e]
  by (auto simp: analyzeCode_def split: option.splits prod.splits outcome.splits json.splits)

lemma inv_getCompletions: "worker_inv st \<Longrightarrow> worker_inv (snd (getCompletions e code l c st))"
  using inv_run_analysis [of Call_get_completions "set_position code l c st" e]
  by (auto simp: getCompletions_def split: option.splits prod.splits outcome.splits json.splits)

lemma inv_getHover: "worker_inv st \<Longrightarrow> worker_inv (snd (getHover e code l c st))"
  using inv_run_analysis [of Call_get_hover "set_position code l c st" e]
  by (auto simp: getHover_def split: option.splits prod.splits outcome.splits json.splits)

lemma inv_getDefinitions: "worker_inv st \<Longrightarrow> worker_inv (snd (getDefinitions e code l c st))"
  using inv_run_analysis [of Call_get_definitions "set_position code l c st" e]
  by (auto simp: getDefinitions_def split: option.splits prod.splits outcome.splits json.splits)

lemma inv_initializeJedi:
  assumes "worker_inv st"
  shows "worker_inv (snd (initializeJedi e st))"
proof -
  obtain r st' where o: "initializeJedi e st = (r, st')" by (cases "initializeJedi e st")
  have l: "bootstrap_limit_ok st'"
    using limit_initializeJedi [OF o] assms by (simp add: worker_inv_def)
  show ?thesis
  proof (cases r)
    case (Raises err)
    with o l initializeJedi_Raises [of e st err st'] show ?thesis by (simp add: worker_inv_def)
  next
    case (Returns u)
    with o have "initializeJedi e st = (Returns u, st')" by simp
    from initializeJedi_Returns [OF this assms] l o show ?thesis
      by (auto simp: worker_inv_def)
  qed
qed

lemma inv_worker_listener: "worker_inv st \<Longrightarrow> worker_inv (snd (worker_listener e req st))"
  using inv_initializeJedi [of st e] inv_analyzeCode [of st e] inv_getCompletions [of st e]
    inv_getHover [of st e] inv_getDefinitions [of st e]
  by (cases req) (simp_all add: case_prod_beta split: outcome.splits)

lemma inv_initial_worker: "worker_inv initial_worker"
  by (simp add: worker_inv_def initial_worker_def bootstrap_limit_ok_def)

lemma reachable_worker_inv: "reachable_worker st \<Longrightarrow> worker_inv st"
  by (induction rule: reachable_worker.induct) (simp_all add: inv_initial_worker inv_worker_listener)

subsection \<open>The worker of the examples\<close>

lemma ready_worker_eq:
  "ready_worker =
     \<lparr> pyodide = Some \<lparr> globals = Map.empty, bootstrapped = Some 50 \<rparr>,
       jediInitialized = True, loadPyodideFn = True,
       calls = [ImportModule, LoadPyodide, LoadPackage ''micropip'', RunPython INSTALL_SCRIPT,
                MicropipInstall ''jedi'', MicropipInstall ''parso'',
                RunPython (createJediBootstrap 50)] \<rparr>"
  by (simp add: ready_worker_def initial_worker_def initializeJedi_def obtain_loader_def
      call_loader_def loadPackage_def runPythonAsync_def run_install_def run_bootstrap_def
      record_call_def env_online_def MAX_COMPLETIONS_def Let_def)

lemma fst_initialize_online:
  "fst (worker_listener env_online (Initialize rid) initial_worker) = [Initialized rid True None]"
  by (simp add: initial_worker_def initializeJedi_def obtain_loader_def
      call_loader_def loadPackage_def runPythonAsync_def run_install_def run_bootstrap_def
      record_call_def env_online_def MAX_COMPLETIONS_def Let_def)

lemma reachable_ready_worker: "reachable_worker ready_worker"
  unfolding ready_worker_def by (rule reachable_worker.step) (rule reachable_worker.start)

lemma jedi_complete_online:
  "jedi_complete env_online code l c = Returns (replicate 60 sample_name)"
  by (simp add: env_online_def)

lemma python_fault_online: "python_fault env_online code = None"
  by (simp add: env_online_def)

lemma completion_loop_replicate:
  "completion_entry e item = Returns r \<Longrightarrow>
   completion_loop e (replicate n item) acc = Returns (acc @ replicate n r)"
  by (induction n arbitrary: acc) (simp_all add: replicate_app_Cons_same)

lemma sample_entry:
  "completion_entry env_online sample_name =
     Returns \<lparr> item_name = ''foo'', item_type = ''function'', item_description = ''def foo'',
               item_signature = ''foo()'', item_docstring = [], item_insert_text = ''o'' \<rparr>"
  by (simp add: completion_entry_def sample_name_def clean_docstring_def)

lemma sample_get_completions:
  "get_completions env_online 50 code l c =
     replicate 50 \<lparr> item_name = ''foo'', item_type = ''function'', item_description = ''def foo'',
               item_signature = ''foo()'', item_docstring = [], item_insert_text = ''o'' \<rparr>"
  by (simp add: get_completions_def slice_to_def jedi_complete_online
      completion_loop_replicate [OF sample_entry])

lemma sample_completions:
  "fst (getCompletions env_online code l c ready_worker) =
     replicate 50 \<lparr> item_name = ''foo'', item_type = ''function'', item_description = ''def foo'',
               item_signature = ''foo()'', item_docstring = [], item_insert_text = ''o'' \<rparr>"
  by (simp add: ready_worker_eq getCompletions_def getRuntime_def set_position_def
      globals_set_def record_call_def runPythonAsync_def run_get_completions_def
      sample_get_completions python_fault_online Let_def case_prod_beta)

lemma sample_hover:
  "fst (worker_listener env_online (Hover ''hover-7-3'' ''fo'' 1 2) ready_worker) =
     [HoverResponse ''hover-7-3''
        (Some \<lparr> contents_kind = ''markdown'',
                 contents_value = ''**foo** (function)'' @ [CHR 0x0A, CHR 0x0A] @ ''foo()'' \<rparr>)]"
  by (simp add: ready_worker_eq getHover_def getRuntime_def set_position_def
      globals_set_def record_call_def runPythonAsync_def run_get_hover_def get_hover_def
      env_online_def sample_name_def clean_docstring_def render_hover_def blank_line_def
      Let_def case_prod_beta)

lemma initialize_fails:
  "worker_listener env_install_fails (Initialize rid) initial_worker =
     ([Initialized rid False (Some ''ValueError: no wheel'')], failed_worker)"
  by (simp add: initial_worker_def initializeJedi_def obtain_loader_def
      call_loader_def loadPackage_def runPythonAsync_def run_install_def run_bootstrap_def
      record_call_def env_online_def env_install_fails_def failed_worker_def
      MAX_COMPLETIONS_def Let_def)

lemma initialize_recovers:
  "worker_listener env_online (Initialize rid) failed_worker =
     ([Initialized rid True None], recovered_worker)"
  by (simp add: initializeJedi_def obtain_loader_def
      call_loader_def loadPackage_def runPythonAsync_def run_install_def run_bootstrap_def
      record_call_def env_online_def failed_worker_def recovered_worker_def
      MAX_COMPLETIONS_def Let_def)

subsection \<open>Initialisation\<close>

text \<open>
  Claim C6: \<open>initializeJedi\<close> is idempotent. When an Initialize request has been answered
  with success, a second Initialize request, whatever the environment would answer, is
  answered with success as well and leaves the state of the worker as it is: the log of
  calls is the same, so Pyodide is not loaded again and no package is installed again.
\<close>

theorem initialize_idempotent:
  assumes "reachable_worker st0"
    and "worker_listener e1 (Initialize r1) st0 = ([Initialized r1 True err], st1)"
  shows "worker_listener e2 (Initialize r2) st1 = ([Initialized r2 True None], st1)"
proof -
  from assms(2) obtain u where "initializeJedi e1 st0 = (Returns u, st1)"
    by (auto split: prod.splits outcome.splits)
  from initializeJedi_Returns [OF this reachable_worker_inv [OF assms(1)]]
  have "jediInitialized st1" by simp
  then show ?thesis by (simp add: initializeJedi_def)
qed

theorem initialize_idempotent_witness:
  "reachable_worker initial_worker \<and>
   worker_listener env_online (Initialize ''initialize-0-1'') initial_worker =
     ([Initialized ''initialize-0-1'' True None], ready_worker) \<and>
   worker_listener env_offline (Initialize ''initialize-9-2'') ready_worker =
     ([Initialized ''initialize-9-2'' True None], ready_worker) \<and>
   calls ready_worker =
     [ImportModule, LoadPyodide, LoadPackage ''micropip'', RunPython INSTALL_SCRIPT,
      MicropipInstall ''jedi'', MicropipInstall ''parso'', RunPython (createJediBootstrap 50)]"
proof -
  have r: "reachable_worker initial_worker" by (rule reachable_worker.start)
  have f: "worker_listener env_online (Initialize ''initialize-0-1'') initial_worker =
     ([Initialized ''initialize-0-1'' True None], ready_worker)"
    using fst_initialize_online [of "''initialize-0-1''"]
    by (simp add: ready_worker_def prod_eq_iff)
  from initialize_idempotent [OF r f, of env_offline "''initialize-9-2''"] r f
  show ?thesis by (simp add: ready_worker_eq)
qed

text \<open>
  Before \<open>jediInitialized\<close> is set, an analysis request is answered with the default of
  its kind and changes nothing; an Initialize request runs the bootstrap from the loader
  on.
\<close>

lemma not_ready_defaults:
  assumes "\<not> jediInitialized st"
  shows "worker_listener e (Analyze requestId code) st = ([Analysis requestId []], st)"
    and "worker_listener e (Completion requestId code l c) st = ([CompletionResponse requestId []], st)"
    and "worker_listener e (Hover requestId code l c) st = ([HoverResponse requestId None], st)"
    and "worker_listener e (Definition requestId code l c) st = ([DefinitionResponse requestId []], st)"
  using assms
  by (simp_all add: analyzeCode_def getCompletions_def getHover_def getDefinitions_def
      getRuntime_def split: option.splits)

lemma initializeJedi_succeeds:
  assumes "bootstrap_succeeds e" and "\<not> jediInitialized st"
  shows "fst (initializeJedi e st) = Returns () \<and> jediInitialized (snd (initializeJedi e st))"
  using assms
  by (simp add: bootstrap_succeeds_def initializeJedi_def obtain_loader_def
      call_loader_def loadPackage_def runPythonAsync_def run_install_def run_bootstrap_def
      record_call_def Let_def)

lemma initializeJedi_succeeds_calls:
  assumes "bootstrap_succeeds e" and "\<not> jediInitialized st"
  shows "calls (snd (initializeJedi e st)) = calls st @ bootstrap_calls st"
  using assms
  by (simp add: bootstrap_succeeds_def initializeJedi_def obtain_loader_def
      call_loader_def loadPackage_def runPythonAsync_def run_install_def run_bootstrap_def
      record_call_def Let_def bootstrap_calls_def)

lemma initializeJedi_calls_prefix:
  assumes "\<not> jediInitialized st"
  shows "\<exists>more. calls st @ bootstrap_calls st = calls (snd (initializeJedi e st)) @ more"
  using assms
  by (simp add: initializeJedi_def obtain_loader_def
      call_loader_def loadPackage_def runPythonAsync_def run_install_def run_bootstrap_def
      record_call_def Let_def bootstrap_calls_def
      split: outcome.splits option.splits)

lemma calls_obtain_loader:
  "calls (snd (obtain_loader e st)) = calls st @ (if loadPyodideFn st then [] else [ImportModule])"
  by (simp add: obtain_loader_def split: outcome.splits)

lemma calls_call_loader: "calls (snd (call_loader e st)) = calls st @ [LoadPyodide]"
  by (simp add: call_loader_def split: outcome.splits)

lemma calls_loadPackage: "calls (snd (loadPackage e n st)) = calls st @ [LoadPackage n]"
  by (simp add: loadPackage_def)

lemma calls_runPythonAsync: "\<exists>more. calls (snd (runPythonAsync e code st)) = calls st @ more"
  by (cases code)
     (auto simp: runPythonAsync_def Let_def run_install_def run_bootstrap_def
        run_get_diagnostics_def run_get_completions_def run_get_hover_def
        run_get_definitions_def
        split: option.splits outcome.splits pyval.splits)

lemma initializeJedi_retries:
  assumes "\<not> jediInitialized st"
  shows "\<exists>more. calls (snd (initializeJedi e st)) =
           calls st @ (if loadPyodideFn st then [LoadPyodide] else [ImportModule]) @ more"
proof -
  obtain r1 s1 where o1: "obtain_loader e st = (r1, s1)" by (cases "obtain_loader e st")
  obtain r2 s2 where o2: "call_loader e s1 = (r2, s2)" by (cases "call_loader e s1")
  obtain r3 s3 where o3: "loadPackage e ''micropip'' s2 = (r3, s3)"
    by (cases "loadPackage e ''micropip'' s2")
  obtain r4 s4 where o4: "runPythonAsync e INSTALL_SCRIPT s3 = (r4, s4)"
    by (cases "runPythonAsync e INSTALL_SCRIPT s3")
  obtain r5 s5 where o5: "runPythonAsync e (createJediBootstrap MAX_COMPLETIONS) s4 = (r5, s5)"
    by (cases "runPythonAsync e (createJediBootstrap MAX_COMPLETIONS) s4")
  let ?first = "if loadPyodideFn st then [LoadPyodide] else [ImportModule]"
  have c1: "calls s1 = calls st @ (if loadPyodideFn st then [] else [ImportModule])"
    using calls_obtain_loader [of e st] o1 by simp
  have c2: "calls s2 = calls s1 @ [LoadPyodide]"
    using calls_call_loader [of e s1] o2 by simp
  have c3: "calls s3 = calls s2 @ [LoadPackage ''micropip'']"
    using calls_loadPackage [of e "''micropip''" s2] o3 by simp
  obtain m4 where c4: "calls s4 = calls s3 @ m4"
    using calls_runPythonAsync [of e INSTALL_SCRIPT s3] o4 by auto
  obtain m5 where c5: "calls s5 = calls s4 @ m5"
    using calls_runPythonAsync [of e "createJediBootstrap MAX_COMPLETIONS" s4] o5 by auto
  have p2: "\<exists>more. calls s2 = calls st @ ?first @ more" using c1 c2 by simp
  then have p3: "\<exists>more. calls s3 = calls st @ ?first @ more" using c3 by auto
  then have p4: "\<exists>more. calls s4 = calls st @ ?first @ more" using c4 by auto
  then have p5: "\<exists>more. calls s5 = calls st @ ?first @ more" using c5 by auto
  then have p6: "\<exists>more. calls (s5\<lparr>jediInitialized := True\<rparr>) = calls st @ ?first @ more" by simp
  show ?thesis
  proof (cases r1)
    case (Raises err)
    then have "\<not> loadPyodideFn st" using o1 by (auto simp: obtain_loader_def split: if_splits)
    moreover have "snd (initializeJedi e st) = s1"
      using assms o1 Raises by (simp add: initializeJedi_def)
    ultimately show ?thesis using c1 by simp
  next
    case (Returns u)
    then have "snd (initializeJedi e st) \<in> {s2, s3, s4, s5, s5\<lparr>jediInitialized := True\<rparr>}"
      using assms o1 o2 o3 o4 o5 by (auto simp: initializeJedi_def split: outcome.splits)
    with p2 p3 p4 p5 p6 show ?thesis by auto
  qed
qed

lemma snd_listener_initialize:
  "snd (worker_listener e (Initialize r) st) = snd (initializeJedi e st)"
  by (simp add: case_prod_beta split: outcome.splits)

lemma fst_listener_initialize:
  "fst (worker_listener e (Initialize r) st) =
     (case fst (initializeJedi e st) of
        Returns u \<Rightarrow> [Initialized r True None]
      | Raises err \<Rightarrow> [Initialized r False (Some err)])"
  by (simp add: case_prod_beta split: outcome.splits)

text \<open>
  Claim C4, as amended: after an Initialize request has been answered with a failure,
  \<open>jediInitialized\<close> is false, and the worker does not retry on its own: an analysis
  request or an unknown request is answered (or dropped) without any call to the loader
  or the runtime, and leaves the state as it is. A subsequent Initialize request does run
  the bootstrap again, from its start: its first call is the loader (or the import of the
  Pyodide module, when the loader is not cached), and the calls it makes are an initial
  part of one whole run of the bootstrap. When every step of the bootstrap succeeds, the
  calls are the whole run (Pyodide is loaded anew, micropip is loaded, Jedi and parso are
  installed again, the bootstrap script is run again), the request is answered with
  success, and \<open>jediInitialized\<close> is set.
\<close>

theorem retry_only_on_request:
  assumes "worker_listener e1 (Initialize r1) st = ([Initialized r1 False err], st1)"
  shows "\<not> jediInitialized st1 \<and>
    worker_listener e (Analyze requestId code) st1 = ([Analysis requestId []], st1) \<and>
    worker_listener e (Completion requestId code l c) st1 = ([CompletionResponse requestId []], st1) \<and>
    worker_listener e (Hover requestId code l c) st1 = ([HoverResponse requestId None], st1) \<and>
    worker_listener e (Definition requestId code l c) st1 = ([DefinitionResponse requestId []], st1) \<and>
    worker_listener e (Unknown ty requestId) st1 = ([], st1) \<and>
    (\<exists>more. calls (snd (worker_listener e2 (Initialize r2) st1)) =
       calls st1 @ (if loadPyodideFn st1 then [LoadPyodide] else [ImportModule]) @ more) \<and>
    (\<exists>more. calls st1 @ bootstrap_calls st1 =
       calls (snd (worker_listener e2 (Initialize r2) st1)) @ more) \<and>
    (bootstrap_succeeds e2 \<longrightarrow>
       fst (worker_listener e2 (Initialize r2) st1) = [Initialized r2 True None] \<and>
       jediInitialized (snd (worker_listener e2 (Initialize r2) st1)) \<and>
       calls (snd (worker_listener e2 (Initialize r2) st1)) =
         calls st1 @ (if loadPyodideFn st1 then [] else [ImportModule]) @
           [LoadPyodide, LoadPackage ''micropip'', RunPython INSTALL_SCRIPT,
            MicropipInstall ''jedi'', MicropipInstall ''parso'',
            RunPython (createJediBootstrap MAX_COMPLETIONS)])"
proof -
  from assms obtain m where "initializeJedi e1 st = (Raises m, st1)"
    by (auto split: prod.splits outcome.splits)
  then have f: "\<not> jediInitialized st1" by (rule initializeJedi_Raises)
  have r: "\<exists>more. calls (snd (worker_listener e2 (Initialize r2) st1)) =
       calls st1 @ (if loadPyodideFn st1 then [LoadPyodide] else [ImportModule]) @ more"
    using initializeJedi_retries [OF f, of e2] by (simp only: snd_listener_initialize)
  have p: "\<exists>more. calls st1 @ bootstrap_calls st1 =
       calls (snd (worker_listener e2 (Initialize r2) st1)) @ more"
    using initializeJedi_calls_prefix [OF f, of e2] by (simp only: snd_listener_initialize)
  have s: "bootstrap_succeeds e2 \<longrightarrow>
       fst (worker_listener e2 (Initialize r2) st1) = [Initialized r2 True None] \<and>
       jediInitialized (snd (worker_listener e2 (Initialize r2) st1)) \<and>
       calls (snd (worker_listener e2 (Initialize r2) st1)) =
         calls st1 @ (if loadPyodideFn st1 then [] else [ImportModule]) @
           [LoadPyodide, LoadPackage ''micropip'', RunPython INSTALL_SCRIPT,
            MicropipInstall ''jedi'', MicropipInstall ''parso'',
            RunPython (createJediBootstrap MAX_COMPLETIONS)]"
    using initializeJedi_succeeds [OF _ f, of e2] initializeJedi_succeeds_calls [OF _ f, of e2]
    by (simp add: snd_listener_initialize fst_listener_initialize bootstrap_calls_def
        del: worker_listener.simps)
  show ?thesis
    using f r p s by (simp only: not_ready_defaults [OF f] simp_thms) simp
qed

theorem retry_only_on_request_witness:
  "worker_listener env_install_fails (Initialize ''initialize-0-1'') initial_worker =
     ([Initialized ''initialize-0-1'' False (Some ''ValueError: no wheel'')], failed_worker) \<and>
   \<not> jediInitialized failed_worker \<and>
   worker_listener env_online (Completion ''completion-7-2'' ''fo'' 1 2) failed_worker =
     ([CompletionResponse ''completion-7-2'' []], failed_worker) \<and>
   bootstrap_succeeds env_online \<and>
   fst (worker_listener env_online (Initialize ''initialize-9-2'') failed_worker) =
     [Initialized ''initialize-9-2'' True None] \<and>
   jediInitialized (snd (worker_listener env_online (Initialize ''initialize-9-2'') failed_worker)) \<and>
   calls (snd (worker_listener env_online (Initialize ''initialize-9-2'') failed_worker)) =
     [ImportModule, LoadPyodide, LoadPackage ''micropip'', RunPython INSTALL_SCRIPT,
      MicropipInstall ''jedi'',
      LoadPyodide, LoadPackage ''micropip'', RunPython INSTALL_SCRIPT,
      MicropipInstall ''jedi'', MicropipInstall ''parso'', RunPython (createJediBootstrap 50)]"
proof -
  have b: "bootstrap_succeeds env_online"
    by (simp add: bootstrap_succeeds_def env_online_def)
  have l: "loadPyodideFn failed_worker" by (simp add: failed_worker_def)
  have c: "calls failed_worker =
     [ImportModule, LoadPyodide, LoadPackage ''micropip'', RunPython INSTALL_SCRIPT,
      MicropipInstall ''jedi'']" by (simp add: failed_worker_def)
  from retry_only_on_request [OF initialize_fails [of "''initialize-0-1''"], where e = env_online
      and requestId = "''completion-7-2''" and code = "''fo''" and l = 1 and c = 2
      and ?e2.0 = env_online and ?r2.0 = "''initialize-9-2''"]
    b l c initialize_fails [of "''initialize-0-1''"]
  show ?thesis by (simp del: worker_listener.simps add: MAX_COMPLETIONS_def)
qed

text \<open>
  The worker has no failed state that lasts. Here the installation of Jedi fails during
  the first Initialize request; the second one loads Pyodide again, installs both
  packages, runs the bootstrap script and is answered with success.
\<close>

theorem failed_initialize_retried_counterexample:
  "worker_listener env_install_fails (Initialize ''initialize-0-1'') initial_worker =
     ([Initialized ''initialize-0-1'' False (Some ''ValueError: no wheel'')], failed_worker) \<and>
   worker_listener env_online (Initialize ''initialize-9-2'') failed_worker =
     ([Initialized ''initialize-9-2'' True None], recovered_worker) \<and>
   jediInitialized recovered_worker \<and>
   calls recovered_worker =
     calls failed_worker @
       [LoadPyodide, LoadPackage ''micropip'', RunPython INSTALL_SCRIPT,
        MicropipInstall ''jedi'', MicropipInstall ''parso'', RunPython (createJediBootstrap 50)]"
  using initialize_fails [of "''initialize-0-1''"] initialize_recovers [of "''initialize-9-2''"]
  by (simp del: worker_listener.simps add: failed_worker_def recovered_worker_def)

subsection \<open>Completions, hover and positions\<close>

lemma getCompletions_bounded:
  assumes "worker_inv st"
  shows "length (fst (getCompletions e code l c st)) \<le> 50"
proof (cases "getRuntime st")
  case None
  then show ?thesis by (simp add: getCompletions_def)
next
  case (Some runtime)
  let ?s = "set_position code l c st"
  have inv: "worker_inv ?s" using assms by simp
  show ?thesis
  proof (cases "pyodide ?s")
    case None
    with Some show ?thesis
      by (simp add: getCompletions_def runPythonAsync_def Let_def)
  next
    case (Some p)
    with inv have "bootstrapped p = None \<or> bootstrapped p = Some MAX_COMPLETIONS"
      by (auto simp: worker_inv_def bootstrap_limit_ok_def split: option.splits)
    then have "\<And>items s'. run_get_completions e p (record_call (RunPython Call_get_completions) ?s)
                 = (Returns (JCompletions items), s') \<Longrightarrow> length items \<le> 50"
      using get_completions_length [of MAX_COMPLETIONS e]
      by (auto simp: run_get_completions_def MAX_COMPLETIONS_def
          split: option.splits pyval.splits)
    with Some \<open>getRuntime st = Some runtime\<close> show ?thesis
      by (auto simp: getCompletions_def runPythonAsync_def Let_def
          split: prod.splits outcome.splits json.splits option.splits)
  qed
qed

text \<open>
  Claim C7: in every state the worker reaches and whatever Jedi returns, a completion
  request is answered with one response, and the list of completion items it carries has
  at most 50 elements.
\<close>

theorem completions_at_most_50:
  assumes "reachable_worker st"
  shows "\<exists>items. fst (worker_listener e (Completion requestId code l c) st)
                   = [CompletionResponse requestId items] \<and> length items \<le> 50"
  using getCompletions_bounded [OF reachable_worker_inv [OF assms], of e code l c]
  by (simp add: case_prod_beta)

theorem completions_at_most_50_witness:
  "reachable_worker ready_worker \<and>
   fst (worker_listener env_online (Completion ''completion-7-2'' ''fo'' 1 2) ready_worker)
     = [CompletionResponse ''completion-7-2''
          (replicate 50 \<lparr> item_name = ''foo'', item_type = ''function'',
             item_description = ''def foo'', item_signature = ''foo()'', item_docstring = [],
             item_insert_text = ''o'' \<rparr>)]"
  using completions_at_most_50 [OF reachable_ready_worker, of env_online "''completion-7-2''" "''fo''" 1 2]
    reachable_ready_worker sample_completions [of "''fo''" 1 2]
  by (simp add: case_prod_beta)

text \<open>
  Claim C8: for the symbol \<open>foo\<close> of type \<open>function\<close> with signature \<open>foo()\<close> and an
  empty docstring the rendered value is \<open>**foo** (function)\<close>, a blank line, and
  \<open>foo()\<close>, and this is what the worker answers to a hover request on it. In general the
  value is the header alone when signature and docstring are both empty, the header and
  the one that is not empty when the other is, and the header, the signature and the
  docstring otherwise, joined by blank lines.
\<close>

theorem hover_rendering:
  "contents_value (render_hover \<lparr> hi_name = ''foo'', hi_type = ''function'', hi_description = d,
       hi_docstring = [], hi_signature = ''foo()'' \<rparr>)
     = ''**foo** (function)'' @ [CHR 0x0A, CHR 0x0A] @ ''foo()'' \<and>
   fst (worker_listener env_online (Hover ''hover-7-3'' ''fo'' 1 2) ready_worker) =
     [HoverResponse ''hover-7-3''
        (Some \<lparr> contents_kind = ''markdown'',
                 contents_value = ''**foo** (function)'' @ [CHR 0x0A, CHR 0x0A] @ ''foo()'' \<rparr>)] \<and>
   contents_kind (render_hover parsed) = ''markdown'' \<and>
   contents_value (render_hover parsed)
     = (let header = ''**'' @ hi_name parsed @ ''** ('' @ hi_type parsed @ '')'' in
        if hi_signature parsed = [] \<and> hi_docstring parsed = [] then header
        else if hi_docstring parsed = [] then header @ [CHR 0x0A, CHR 0x0A] @ hi_signature parsed
        else if hi_signature parsed = [] then header @ [CHR 0x0A, CHR 0x0A] @ hi_docstring parsed
        else header @ [CHR 0x0A, CHR 0x0A] @ hi_signature parsed
                    @ [CHR 0x0A, CHR 0x0A] @ hi_docstring parsed)"
  using sample_hover
  by (simp add: render_hover_def blank_line_def Let_def del: worker_listener.simps)

lemma calls_set_position:
  "calls (set_position code l c st) =
     calls st @ [GlobalsSet ''user_code'' (PyStr code), GlobalsSet ''user_line'' (PyInt (max 1 l)),
                 GlobalsSet ''user_column'' (PyInt (max 0 c))]"
  by (simp add: set_position_def globals_set_def)

lemma pyodide_set_position:
  "pyodide st = Some p \<Longrightarrow>
   pyodide (set_position code l c st) =
     Some (p\<lparr>globals := (globals p)(''user_code'' \<mapsto> PyStr code, ''user_line'' \<mapsto> PyInt (max 1 l),
                               ''user_column'' \<mapsto> PyInt (max 0 c))\<rparr>)"
  by (simp add: set_position_def globals_set_def)

lemma ready_runtime:
  assumes "worker_inv st" and "jediInitialized st"
  obtains p where "pyodide st = Some p" and "bootstrapped p = Some MAX_COMPLETIONS"
    and "getRuntime st = Some p"
  using assms by (auto simp: worker_inv_def getRuntime_def split: option.splits)

lemma calls_getCompletions:
  assumes "worker_inv st"
  shows "calls (snd (getCompletions e code l c st)) =
     calls st @ (if jediInitialized st
       then [GlobalsSet ''user_code'' (PyStr code), GlobalsSet ''user_line'' (PyInt (max 1 l)),
             GlobalsSet ''user_column'' (PyInt (max 0 c)), RunPython Call_get_completions] @
            (if python_fault e Call_get_completions = None then [JediComplete code (max 1 l) (max 0 c)] else [])
       else [])"
proof (cases "jediInitialized st")
  case False
  then show ?thesis by (simp add: getCompletions_def getRuntime_def split: option.splits)
next
  case True
  from ready_runtime [OF assms True] obtain p where p: "pyodide st = Some p"
    "bootstrapped p = Some MAX_COMPLETIONS" "getRuntime st = Some p" by blast
  show ?thesis
    using True p(2,3) pyodide_set_position [OF p(1), of code l c] calls_set_position [of code l c st]
    by (simp add: getCompletions_def runPythonAsync_def run_get_completions_def Let_def
        case_prod_beta split: outcome.splits json.splits option.splits)
qed

lemma calls_getHover:
  assumes "worker_inv st"
  shows "calls (snd (getHover e code l c st)) =
     calls st @ (if jediInitialized st
       then [GlobalsSet ''user_code'' (PyStr code), GlobalsSet ''user_line'' (PyInt (max 1 l)),
             GlobalsSet ''user_column'' (PyInt (max 0 c)), RunPython Call_get_hover] @
            (if python_fault e Call_get_hover = None then [JediHelp code (max 1 l) (max 0 c)] else [])
       else [])"
proof (cases "jediInitialized st")
  case False
  then show ?thesis by (simp add: getHover_def getRuntime_def split: option.splits)
next
  case True
  from ready_runtime [OF assms True] obtain p where p: "pyodide st = Some p"
    "bootstrapped p = Some MAX_COMPLETIONS" "getRuntime st = Some p" by blast
  show ?thesis
    using True p(2,3) pyodide_set_position [OF p(1), of code l c] calls_set_position [of code l c st]
    by (simp add: getHover_def runPythonAsync_def run_get_hover_def Let_def
        case_prod_beta split: outcome.splits json.splits option.splits)
qed

lemma calls_getDefinitions:
  assumes "worker_inv st"
  shows "calls (snd (getDefinitions e code l c st)) =
     calls st @ (if jediInitialized st
       then [GlobalsSet ''user_code'' (PyStr code), GlobalsSet ''user_line'' (PyInt (max 1 l)),
             GlobalsSet ''user_column'' (PyInt (max 0 c)), RunPython Call_get_definitions] @
            (if python_fault e Call_get_definitions = None then [JediGoto code (max 1 l) (max 0 c)] else [])
       else [])"
proof (cases "jediInitialized st")
  case False
  then show ?thesis by (simp add: getDefinitions_def getRuntime_def split: option.splits)
next
  case True
  from ready_runtime [OF assms True] obtain p where p: "pyodide st = Some p"
    "bootstrapped p = Some MAX_COMPLETIONS" "getRuntime st = Some p" by blast
  show ?thesis
    using True p(2,3) pyodide_set_position [OF p(1), of code l c] calls_set_position [of code l c st]
    by (simp add: getDefinitions_def runPythonAsync_def run_get_definitions_def Let_def
        case_prod_beta split: outcome.splits json.splits option.splits)
qed

text \<open>
  Claim C9: while a completion, hover or definition request for line \<open>l\<close> and column \<open>c\<close>
  is handled, the calls made to the runtime are these and no others: once the worker is
  initialised, \<open>user_code\<close>, \<open>user_line\<close> and \<open>user_column\<close> are set to the source text,
  \<open>max 1 l\<close> and \<open>max 0 c\<close>, the call expression is run, and (unless the run fails as a
  whole) Jedi is called with the source text, line \<open>max 1 l\<close> and column \<open>max 0 c\<close>. So
  the line that reaches Jedi is at least 1 and the column at least 0.
\<close>

theorem coordinates_clamped:
  assumes "reachable_worker st"
  shows "calls (snd (worker_listener e (Completion requestId code l c) st)) =
     calls st @ (if jediInitialized st
       then [GlobalsSet ''user_code'' (PyStr code), GlobalsSet ''user_line'' (PyInt (max 1 l)),
             GlobalsSet ''user_column'' (PyInt (max 0 c)), RunPython Call_get_completions] @
            (if python_fault e Call_get_completions = None then [JediComplete code (max 1 l) (max 0 c)] else [])
       else []) \<and>
   calls (snd (worker_listener e (Hover requestId code l c) st)) =
     calls st @ (if jediInitialized st
       then [GlobalsSet ''user_code'' (PyStr code), GlobalsSet ''user_line'' (PyInt (max 1 l)),
             GlobalsSet ''user_column'' (PyInt (max 0 c)), RunPython Call_get_hover] @
            (if python_fault e Call_get_hover = None then [JediHelp code (max 1 l) (max 0 c)] else [])
       else []) \<and>
   calls (snd (worker_listener e (Definition requestId code l c) st)) =
     calls st @ (if jediInitialized st
       then [GlobalsSet ''user_code'' (PyStr code), GlobalsSet ''user_line'' (PyInt (max 1 l)),
             GlobalsSet ''user_column'' (PyInt (max 0 c)), RunPython Call_get_definitions] @
            (if python_fault e Call_get_definitions = None then [JediGoto code (max 1 l) (max 0 c)] else [])
       else []) \<and>
   1 \<le> max 1 l \<and> 0 \<le> max 0 c"
  using calls_getCompletions [OF reachable_worker_inv [OF assms], of e code l c]
    calls_getHover [OF reachable_worker_inv [OF assms], of e code l c]
    calls_getDefinitions [OF reachable_worker_inv [OF assms], of e code l c]
  by (simp add: case_prod_beta)

theorem coordinates_clamped_witness:
  "reachable_worker ready_worker \<and>
   calls (snd (worker_listener env_online (Completion ''completion-7-2'' ''fo'' (- 3) (- 1)) ready_worker))
     = calls ready_worker @
       [GlobalsSet ''user_code'' (PyStr ''fo''), GlobalsSet ''user_line'' (PyInt 1),
        GlobalsSet ''user_column'' (PyInt 0), RunPython Call_get_completions,
        JediComplete ''fo'' 1 0] \<and>
   calls (snd (worker_listener env_online (Hover ''hover-7-3'' ''fo'' 0 5) ready_worker))
     = calls ready_worker @
       [GlobalsSet ''user_code'' (PyStr ''fo''), GlobalsSet ''user_line'' (PyInt 1),
        GlobalsSet ''user_column'' (PyInt 5), RunPython Call_get_hover,
        JediHelp ''fo'' 1 5]"
  using coordinates_clamped [OF reachable_ready_worker, of env_online "''completion-7-2''" "''fo''" "- 3" "- 1"]
    coordinates_clamped [OF reachable_ready_worker, of env_online "''hover-7-3''" "''fo''" 0 5]
    reachable_ready_worker
  by (simp add: ready_worker_eq python_fault_online)

section \<open>Properties of the bridge\<close>

subsection \<open>The completion provider\<close>

text \<open>
  Claim C10: for every completion response, the inserted text and the filter text of each
  suggestion are the \<open>name\<close> of its item, and the suggestions do not depend on the
  \<open>insert_text\<close> of the items: replacing it by anything gives the same suggestions.
\<close>

theorem completion_inserts_name:
  "map insertText (completion_then lineNumber column wordStart (Some (CompletionResponse rid items)))
     = map item_name items \<and>
   map filterText (completion_then lineNumber column wordStart (Some (CompletionResponse rid items)))
     = map item_name items \<and>
   completion_then lineNumber column wordStart
       (Some (CompletionResponse rid (map (\<lambda>item. item\<lparr>item_insert_text := other item\<rparr>) items)))
     = completion_then lineNumber column wordStart (Some (CompletionResponse rid items))"
  by (simp add: completion_then_def to_suggestion_def comp_def)

subsection \<open>Request ids\<close>

text \<open>
  The decimal digits of a number determine it, and have no hyphen among them: two
  request ids that are equal were made with the same value of the counter.
\<close>

lemma digit_inj: "d < 10 \<Longrightarrow> d' < 10 \<Longrightarrow> digit d = digit d' \<Longrightarrow> d = d'"
proof -
  assume a: "d < 10" "d' < 10" "digit d = digit d'"
  have "distinct ''0123456789''" by simp
  moreover have "d < length ''0123456789''" "d' < length ''0123456789''" using a by simp_all
  ultimately show ?thesis using a(3) unfolding digit_def by (simp only: nth_eq_iff_index_eq)
qed

lemma digit_not_dash: "d < 10 \<Longrightarrow> digit d \<noteq> CHR ''-''"
proof -
  assume "d < 10"
  then have "digit d \<in> set ''0123456789''" unfolding digit_def by (simp only: nth_mem length_Cons list.size)
  then show ?thesis by auto
qed

lemma show_nat_not_Nil: "show_nat n \<noteq> []"
  by (subst show_nat.simps) simp

lemma show_nat_no_dash: "CHR ''-'' \<notin> set (show_nat n)"
proof (induction n rule: show_nat.induct)
  case (1 n)
  show ?case
  proof (cases "n < 10")
    case True
    then show ?thesis using digit_not_dash [of n] by (subst show_nat.simps) auto
  next
    case False
    then show ?thesis
      using 1 digit_not_dash [of "n mod 10"] by (subst show_nat.simps) auto
  qed
qed

lemma show_nat_inj: "show_nat m = show_nat n \<Longrightarrow> m = n"
proof (induction m arbitrary: n rule: show_nat.induct)
  case (1 m)
  show ?case
  proof (cases "m < 10")
    case m: True
    show ?thesis
    proof (cases "n < 10")
      case True
      with m 1(2) show ?thesis using digit_inj [of m n] by (simp)
    next
      case False
      then have "show_nat n = show_nat (n div 10) @ [digit (n mod 10)]"
        by (subst show_nat.simps) simp
      moreover have "show_nat m = [digit m]" using m by simp
      ultimately show ?thesis using 1(2) show_nat_not_Nil [of "n div 10"] by simp
    qed
  next
    case m: False
    then have em: "show_nat m = show_nat (m div 10) @ [digit (m mod 10)]"
      by (subst show_nat.simps) simp
    show ?thesis
    proof (cases "n < 10")
      case True
      then have "show_nat n = [digit n]" by simp
      with em 1(2) show_nat_not_Nil [of "m div 10"] show ?thesis by simp
    next
      case False
      then have en: "show_nat n = show_nat (n div 10) @ [digit (n mod 10)]"
        by (subst show_nat.simps) simp
      from em en 1(2) have a: "show_nat (m div 10) = show_nat (n div 10)"
        and b: "digit (m mod 10) = digit (n mod 10)" by simp_all
      from 1(1) [OF m a] have "m div 10 = n div 10" .
      moreover from b have "m mod 10 = n mod 10" by (intro digit_inj) simp_all
      ultimately show ?thesis by (metis div_mult_mod_eq)
    qed
  qed
qed

lemma suffix_after_dash:
  assumes "CHR ''-'' \<notin> set b"
  shows "rev (takeWhile (\<lambda>ch. ch \<noteq> CHR ''-'') (rev (a @ ''-'' @ b))) = b"
proof -
  have "rev (a @ ''-'' @ b) = rev b @ CHR ''-'' # rev a" by simp
  moreover have "takeWhile (\<lambda>ch. ch \<noteq> CHR ''-'') (rev b @ CHR ''-'' # rev a) = rev b"
    using assms by (auto simp: takeWhile_tail)
  ultimately show ?thesis by (simp del: rev_append)
qed

lemma make_requestId_counter:
  assumes "make_requestId ty n c = make_requestId ty' n' c'"
  shows "c = c'"
proof -
  have "\<And>t m k. rev (takeWhile (\<lambda>ch. ch \<noteq> CHR ''-'') (rev (make_requestId t m k))) = show_nat k"
    unfolding make_requestId_def
    using suffix_after_dash [OF show_nat_no_dash] by (metis append.assoc)
  with assms have "show_nat c = show_nat c'" by metis
  then show ?thesis by (rule show_nat_inj)
qed

lemma make_requestId_not_Nil: "make_requestId ty n c \<noteq> []"
  by (cases ty) (simp_all add: make_requestId_def)

lemma distinct_snd_eq:
  "distinct (map snd xs) \<Longrightarrow> (a, r) \<in> set xs \<Longrightarrow> (b, r) \<in> set xs \<Longrightarrow> a = b"
  by (induction xs) (auto simp: image_iff)

lemma increment_ge: "n \<le> increment n"
  by (simp add: increment_def)

lemma increment_fresh: "n < 2 ^ 53 \<Longrightarrow> c \<le> n \<Longrightarrow> increment n \<noteq> c"
  by (simp add: increment_def)

lemma callWorker_None: "workerRef s = None \<Longrightarrow> callWorker ty d now s = (ResolvedNull, s)"
  by (simp add: callWorker_def)

lemma callWorker_Some:
  "workerRef s = Some w \<Longrightarrow>
   callWorker ty d now s =
     (Promise (nextCall s),
      s\<lparr> requestIdCounter := increment (requestIdCounter s),
         nextCall := Suc (nextCall s),
         timers := (timers s)(nextCall s \<mapsto>
           \<lparr> due = now + 5000,
             timer_requestId = make_requestId ty now (increment (requestIdCounter s)) \<rparr>),
         pendingRequests := (pendingRequests s)
           (make_requestId ty now (increment (requestIdCounter s)) \<mapsto> nextCall s),
         issued := issued s @
           [(nextCall s, make_requestId ty now (increment (requestIdCounter s)))],
         posted := posted s @
           [(w, \<lparr> msg_type = ty, msg_data = d,
                  msg_requestId = make_requestId ty now (increment (requestIdCounter s)) \<rparr>)] \<rparr>)"
  by (simp add: callWorker_def Let_def)

lemma callWorker_Promise:
  assumes "callWorker ty d now s = (Promise h, s1)"
  obtains w where "workerRef s = Some w" and "h = nextCall s"
    and "s1 = snd (callWorker ty d now s)"
  using assms by (cases "workerRef s") (auto simp: callWorker_None callWorker_Some)

lemma fresh_id:
  assumes "issued_ok s" and "requestIdCounter s < 2 ^ 53"
  shows "make_requestId ty now (increment (requestIdCounter s)) \<notin> snd ` set (issued s)"
proof
  assume "make_requestId ty now (increment (requestIdCounter s)) \<in> snd ` set (issued s)"
  then obtain h where "(h, make_requestId ty now (increment (requestIdCounter s))) \<in> set (issued s)"
    by auto
  with assms(1) obtain ty' n' c' where
    e: "make_requestId ty now (increment (requestIdCounter s)) = make_requestId ty' n' c'"
    and c: "c' \<le> requestIdCounter s"
    unfolding issued_ok_def by blast
  from make_requestId_counter [OF e] have "increment (requestIdCounter s) = c'" .
  with increment_fresh [OF assms(2) c] show False by simp
qed

lemma fresh_call: "issued_ok s \<Longrightarrow> nextCall s \<notin> fst ` set (issued s)"
  unfolding issued_ok_def by fastforce

subsection \<open>The invariant of the bridge\<close>

lemma issued_ok_callWorker:
  assumes "issued_ok s" and "requestIdCounter s < 2 ^ 53"
  shows "issued_ok (snd (callWorker ty d now s))"
proof (cases "workerRef s")
  case None
  with assms show ?thesis by (simp add: callWorker_None)
next
  case (Some w)
  have old: "\<And>h rid. (h, rid) \<in> set (issued s) \<Longrightarrow>
      h < Suc (nextCall s) \<and>
      (\<exists>ty n c. rid = make_requestId ty n c \<and> c \<le> increment (requestIdCounter s))"
    using assms(1) increment_ge [of "requestIdCounter s"] unfolding issued_ok_def
    by (meson le_trans less_Suc_eq)
  have new: "\<exists>ty' n c. make_requestId ty now (increment (requestIdCounter s)) = make_requestId ty' n c
      \<and> c \<le> increment (requestIdCounter s)"
    by blast
  have d1: "distinct (map fst (issued s))" and d2: "distinct (map snd (issued s))"
    using assms(1) unfolding issued_ok_def by simp_all
  show ?thesis
    using old new d1 d2 fresh_id [OF assms, of ty now] fresh_call [OF assms(1)]
    by (auto simp: callWorker_Some [OF Some] issued_ok_def)
qed

lemma timers_ok_callWorker:
  assumes "timers_ok s"
  shows "timers_ok (snd (callWorker ty d now s))"
proof (cases "workerRef s")
  case None
  with assms show ?thesis by (simp add: callWorker_None)
next
  case (Some w)
  show ?thesis
    using assms by (auto simp: callWorker_Some [OF Some] timers_ok_def)
qed

lemma pending_ok_callWorker:
  assumes "pending_ok s"
  shows "pending_ok (snd (callWorker ty d now s))"
proof (cases "workerRef s")
  case None
  with assms show ?thesis by (simp add: callWorker_None)
next
  case (Some w)
  show ?thesis
    using assms by (auto simp: callWorker_Some [OF Some] pending_ok_def)
qed

lemma resolved_ok_callWorker:
  assumes "resolved_ok s" and "issued_ok s"
  shows "resolved_ok (snd (callWorker ty d now s))"
proof (cases "workerRef s")
  case None
  with assms show ?thesis by (simp add: callWorker_None)
next
  case (Some w)
  have "\<And>h v. (h, v) \<in> set (resolved s) \<Longrightarrow> h \<noteq> nextCall s"
    using assms fresh_call [OF assms(2)] unfolding resolved_ok_def by blast
  then show ?thesis
    using assms(1) by (auto simp: callWorker_Some [OF Some] resolved_ok_def)
qed

lemma bridge_inv_callWorker:
  assumes "bridge_inv s" and "requestIdCounter s < 2 ^ 53"
  shows "bridge_inv (snd (callWorker ty d now s))"
  using assms issued_ok_callWorker timers_ok_callWorker pending_ok_callWorker
    resolved_ok_callWorker
  by (simp add: bridge_inv_def)

text \<open>A pending entry and its timer belong to the same call.\<close>

lemma entry_timer:
  assumes "bridge_inv s" and "pendingRequests s rid = Some h"
  shows "\<exists>t. timers s h = Some t \<and> timer_requestId t = rid"
proof -
  from assms have i: "(h, rid) \<in> set (issued s)" and "timers s h \<noteq> None"
    unfolding bridge_inv_def pending_ok_def by blast+
  then obtain t where t: "timers s h = Some t" by auto
  with assms(1) have "(h, timer_requestId t) \<in> set (issued s)"
    unfolding bridge_inv_def timers_ok_def by blast
  moreover from assms(1) have "distinct (map fst (issued s))"
    unfolding bridge_inv_def issued_ok_def by blast
  ultimately have "timer_requestId t = rid" using i by (meson eq_key_imp_eq_value)
  with t show ?thesis by simp
qed

lemma own_entry:
  assumes "bridge_inv s" and "timers s h = Some t"
    and "pendingRequests s (timer_requestId t) = Some h'"
  shows "h' = h"
proof -
  from assms have "(h', timer_requestId t) \<in> set (issued s)"
    unfolding bridge_inv_def pending_ok_def by blast
  moreover from assms have "(h, timer_requestId t) \<in> set (issued s)"
    unfolding bridge_inv_def timers_ok_def by blast
  moreover from assms(1) have "distinct (map snd (issued s))"
    unfolding bridge_inv_def issued_ok_def by blast
  ultimately show ?thesis by (meson distinct_snd_eq)
qed

lemma not_resolved_while_timed:
  assumes "bridge_inv s" and "timers s h = Some t"
  shows "h \<notin> fst ` set (resolved s)"
  using assms unfolding bridge_inv_def resolved_ok_def by force

text \<open>The timer.\<close>

lemma timer_fires_not_due:
  "timers s h = None \<or> (\<exists>t. timers s h = Some t \<and> now < due t) \<Longrightarrow> timer_fires now h s = s"
  by (auto simp: timer_fires_def)

lemma timer_fires_pending:
  assumes "timers s h = Some t" and "due t \<le> now"
    and "pendingRequests s (timer_requestId t) \<noteq> None"
  shows "timer_fires now h s =
     s\<lparr> timers := (timers s)(h := None),
        pendingRequests := (pendingRequests s)(timer_requestId t := None),
        resolved := resolved s @ [(h, None)] \<rparr>"
  using assms by (simp add: timer_fires_def timeout_callback_def)

lemma timer_fires_gone:
  assumes "timers s h = Some t" and "due t \<le> now"
    and "pendingRequests s (timer_requestId t) = None"
  shows "timer_fires now h s = s\<lparr>timers := (timers s)(h := None)\<rparr>"
  using assms by (simp add: timer_fires_def timeout_callback_def)

lemma bridge_inv_timer_fires:
  assumes "bridge_inv s"
  shows "bridge_inv (timer_fires now h s)"
proof (cases "timers s h")
  case None
  with assms show ?thesis by (simp add: timer_fires_not_due)
next
  case (Some t)
  show ?thesis
  proof (cases "now < due t")
    case True
    with Some assms show ?thesis by (simp add: timer_fires_not_due)
  next
    case False
    then have due: "due t \<le> now" by simp
    have nores: "h \<notin> fst ` set (resolved s)" by (rule not_resolved_while_timed [OF assms Some])
    have hiss: "h \<in> fst ` set (issued s)"
      using assms Some unfolding bridge_inv_def timers_ok_def by force
    show ?thesis
    proof (cases "pendingRequests s (timer_requestId t)")
      case None
      have others: "\<And>rid. pendingRequests s rid \<noteq> Some h"
        using entry_timer [OF assms] Some None by fastforce
      have i: "issued_ok (timer_fires now h s)"
        using assms unfolding timer_fires_gone [OF Some due None]
          bridge_inv_def issued_ok_def by simp
      have t: "timers_ok (timer_fires now h s)"
        using assms unfolding timer_fires_gone [OF Some due None]
          bridge_inv_def timers_ok_def by simp
      have p: "pending_ok (timer_fires now h s)"
        using assms others unfolding timer_fires_gone [OF Some due None]
          bridge_inv_def pending_ok_def by auto
      have r: "resolved_ok (timer_fires now h s)"
        using assms unfolding timer_fires_gone [OF Some due None]
          bridge_inv_def resolved_ok_def by auto
      from i t p r show ?thesis by (simp add: bridge_inv_def)
    next
      case (Some h')
      then have ne: "pendingRequests s (timer_requestId t) \<noteq> None" by simp
      have others: "\<And>rid. rid \<noteq> timer_requestId t \<Longrightarrow> pendingRequests s rid \<noteq> Some h"
        using entry_timer [OF assms] \<open>timers s h = Some t\<close> by fastforce
      have i: "issued_ok (timer_fires now h s)"
        using assms unfolding timer_fires_pending [OF \<open>timers s h = Some t\<close> due ne]
          bridge_inv_def issued_ok_def by simp
      have t: "timers_ok (timer_fires now h s)"
        using assms unfolding timer_fires_pending [OF \<open>timers s h = Some t\<close> due ne]
          bridge_inv_def timers_ok_def by simp
      have p: "pending_ok (timer_fires now h s)"
        using assms others unfolding timer_fires_pending [OF \<open>timers s h = Some t\<close> due ne]
          bridge_inv_def pending_ok_def by auto
      have r: "resolved_ok (timer_fires now h s)"
        using assms nores hiss unfolding timer_fires_pending [OF \<open>timers s h = Some t\<close> due ne]
          bridge_inv_def resolved_ok_def by (auto simp: image_iff)
      from i t p r show ?thesis by (simp add: bridge_inv_def)
    qed
  qed
qed

text \<open>A message.\<close>

lemma deliver_unmatched:
  "response_id m = [] \<or> pendingRequests s (response_id m) = None \<Longrightarrow> deliver m s = s"
  by (auto simp: deliver_def)

lemma deliver_matched:
  assumes "response_id m \<noteq> []" and "pendingRequests s (response_id m) = Some h"
  shows "deliver m s =
     s\<lparr> pendingRequests := (pendingRequests s)(response_id m := None),
        timers := (timers s)(h := None),
        resolved := resolved s @ [(h, Some m)] \<rparr>"
  using assms by (simp add: deliver_def resolver_def)

lemma bridge_inv_note_initialized [simp]: "bridge_inv (note_initialized m s) = bridge_inv s"
  by (cases m)
     (simp_all add: note_initialized_def bridge_inv_def issued_ok_def timers_ok_def
        pending_ok_def resolved_ok_def)

lemma bridge_inv_deliver:
  assumes "bridge_inv s"
  shows "bridge_inv (deliver m s)"
proof (cases "response_id m = [] \<or> pendingRequests s (response_id m) = None")
  case True
  with assms show ?thesis by (simp add: deliver_unmatched)
next
  case False
  then obtain h where ne: "response_id m \<noteq> []" and h: "pendingRequests s (response_id m) = Some h"
    by auto
  from entry_timer [OF assms h] obtain t where t: "timers s h = Some t"
    and rid: "timer_requestId t = response_id m" by blast
  have nores: "h \<notin> fst ` set (resolved s)" by (rule not_resolved_while_timed [OF assms t])
  have hiss: "h \<in> fst ` set (issued s)"
    using assms t unfolding bridge_inv_def timers_ok_def by force
  have others: "\<And>rid. rid \<noteq> response_id m \<Longrightarrow> pendingRequests s rid \<noteq> Some h"
    using entry_timer [OF assms] t rid by fastforce
  have i: "issued_ok (deliver m s)"
    using assms unfolding deliver_matched [OF ne h] bridge_inv_def issued_ok_def by simp
  have ti: "timers_ok (deliver m s)"
    using assms unfolding deliver_matched [OF ne h] bridge_inv_def timers_ok_def by simp
  have p: "pending_ok (deliver m s)"
    using assms others unfolding deliver_matched [OF ne h] bridge_inv_def pending_ok_def by auto
  have r: "resolved_ok (deliver m s)"
    using assms nores hiss unfolding deliver_matched [OF ne h] bridge_inv_def resolved_ok_def
    by (auto simp: image_iff)
  from i ti p r show ?thesis by (simp add: bridge_inv_def)
qed

lemma bridge_inv_onmessage: "bridge_inv s \<Longrightarrow> bridge_inv (onmessage m s)"
  by (simp add: onmessage_def bridge_inv_deliver)

text \<open>The effects and the handlers.\<close>

lemma bridge_inv_effect_cleanup: "bridge_inv s \<Longrightarrow> bridge_inv (effect_cleanup s)"
  by (cases "cleanupWorker s")
     (simp_all add: effect_cleanup_def disposeProviders_def bridge_inv_def issued_ok_def
        timers_ok_def pending_ok_def resolved_ok_def)

lemma bridge_inv_frame:
  assumes "bridge_inv s" and "issued s' = issued s" and "timers s' = timers s"
    and "pendingRequests s' = pendingRequests s" and "resolved s' = resolved s"
    and "nextCall s' = nextCall s" and "requestIdCounter s' = requestIdCounter s"
  shows "bridge_inv s'"
  using assms
  by (simp add: bridge_inv_def issued_ok_def timers_ok_def pending_ok_def resolved_ok_def)

lemma bridge_inv_effect_setup:
  assumes "bridge_inv s" and "requestIdCounter s < 2 ^ 53"
  shows "bridge_inv (effect_setup python now s)"
proof (cases python)
  case False
  then show ?thesis
    by - (rule bridge_inv_frame [OF assms(1)], simp_all add: effect_setup_def disposeProviders_def)
next
  case True
  let ?s1 = "s\<lparr>nextWorker := Suc (nextWorker s), workerRef := Some (nextWorker s)\<rparr>"
  have "bridge_inv ?s1" by (rule bridge_inv_frame [OF assms(1)]) simp_all
  moreover have "requestIdCounter ?s1 < 2 ^ 53" using assms(2) by simp
  ultimately have "bridge_inv (snd (callWorker Req_initialize empty_payload now ?s1))"
    by (rule bridge_inv_callWorker)
  then show ?thesis
    using True
    by (elim bridge_inv_frame) (simp_all add: effect_setup_def Let_def)
qed

lemma bridge_inv_updateDiagnostics: "bridge_inv s \<Longrightarrow> bridge_inv (updateDiagnostics ds s)"
  by (erule bridge_inv_frame) (simp_all add: updateDiagnostics_def)

lemma bridge_inv_step:
  assumes "bridge_inv s" and "requestIdCounter s < 2 ^ 53"
  shows "bridge_inv (step ev s)"
proof (cases ev)
  case (CallWorker ty d now)
  then show ?thesis using bridge_inv_callWorker [OF assms] by simp
next
  case (TimerFires now h)
  then show ?thesis using bridge_inv_timer_fires [OF assms(1)] by simp
next
  case (Message m)
  then show ?thesis using bridge_inv_onmessage [OF assms(1)] by simp
next
  case (EffectSetup python now)
  then show ?thesis using bridge_inv_effect_setup [OF assms] by simp
next
  case EffectCleanup
  then show ?thesis using bridge_inv_effect_cleanup [OF assms(1)] by simp
next
  case SyncReady
  then show ?thesis
    by - (rule bridge_inv_frame [OF assms(1)], simp_all add: sync_ready_def)
next
  case (EditorDidMount python)
  then show ?thesis
    by - (rule bridge_inv_frame [OF assms(1)], simp_all add: handleEditorDidMount_def registerProviders_def disposeProviders_def)
next
  case (EditorChange v now)
  then show ?thesis
    using assms(1) bridge_inv_callWorker [OF assms]
    by (simp add: handleEditorChange_def case_prod_beta split: option.splits)
next
  case (AnalysisThen response)
  then show ?thesis
    using assms(1) bridge_inv_updateDiagnostics [OF assms(1)]
    by (simp add: analysis_then_def split: option.splits WorkerResponse.splits)
next
  case (CompletionAsked code l c w now)
  then show ?thesis
    using assms(1) bridge_inv_callWorker [OF assms]
    by (simp add: provideCompletionItems_def case_prod_beta split: call_result.splits)
next
  case (HoverAsked code l c now)
  then show ?thesis
    using assms(1) bridge_inv_callWorker [OF assms]
    by (simp add: provideHover_def case_prod_beta split: call_result.splits)
qed

text \<open>
  Every event leaves the fields of \<open>core\<close> as they are, or makes one call, or is a timer,
  a message, or the cleanup.
\<close>

lemma core_eq:
  "core s' = core s \<longleftrightarrow>
     issued s' = issued s \<and> timers s' = timers s \<and> pendingRequests s' = pendingRequests s \<and>
     resolved s' = resolved s \<and> nextCall s' = nextCall s \<and>
     requestIdCounter s' = requestIdCounter s"
  by (auto simp: core_def)

lemma bridge_inv_core: "core s' = core s \<Longrightarrow> bridge_inv s' = bridge_inv s"
  by (simp add: core_eq bridge_inv_def issued_ok_def timers_ok_def pending_ok_def resolved_ok_def)

lemma core_callWorker:
  "core s0 = core s \<Longrightarrow> workerRef s0 \<noteq> None \<Longrightarrow> workerRef s \<noteq> None \<Longrightarrow>
   core (snd (callWorker ty d now s0)) = core (snd (callWorker ty d now s))"
  by (auto simp: core_eq callWorker_Some)

lemma core_note_initialized [simp]: "core (note_initialized m s) = core s"
  by (cases m) (simp_all add: note_initialized_def core_def)

lemma core_updateDiagnostics [simp]: "core (updateDiagnostics ds s) = core s"
  by (simp add: updateDiagnostics_def core_def)

lemma core_effect_cleanup:
  "core (effect_cleanup s) =
     (if cleanupWorker s = None then core s else core (s\<lparr>pendingRequests := Map.empty\<rparr>))"
  by (simp add: effect_cleanup_def disposeProviders_def core_def split: option.splits)

lemma step_cases [case_names frame call timer message cleanup]:
  obtains "core (step ev s) = core s"
  | ty d now s0 where "core s0 = core s" and "step ev s = snd (callWorker ty d now s0)"
      and "ev \<noteq> EffectCleanup" and "\<forall>m. ev \<noteq> Message m" and "\<forall>n h. ev \<noteq> TimerFires n h"
  | now h where "ev = TimerFires now h" and "step ev s = timer_fires now h s"
  | m where "ev = Message m" and "core (step ev s) = core (deliver m s)"
  | "ev = EffectCleanup" and "core (step ev s) = core (s\<lparr>pendingRequests := Map.empty\<rparr>)"
proof (cases ev)
  case (CallWorker ty d now)
  then show ?thesis using that(2) [of s ty d now] by simp
next
  case (TimerFires now h)
  then show ?thesis using that(3) by simp
next
  case (Message m)
  then show ?thesis using that(4) by (simp add: onmessage_def)
next
  case (EffectSetup python now)
  show ?thesis
  proof (cases python)
    case False
    then show ?thesis
      using that(1) EffectSetup by (simp add: effect_setup_def disposeProviders_def core_def)
  next
    case True
    let ?s1 = "s\<lparr>nextWorker := Suc (nextWorker s), workerRef := Some (nextWorker s)\<rparr>"
    let ?s2 = "?s1\<lparr>cleanupWorker := Some (nextWorker s)\<rparr>"
    have "step ev s = snd (callWorker Req_initialize empty_payload now ?s2)"
      using True EffectSetup by (simp add: effect_setup_def Let_def callWorker_Some)
    moreover have "core ?s2 = core s" by (simp add: core_def)
    ultimately show ?thesis using that(2) EffectSetup by blast
  qed
next
  case EffectCleanup
  then show ?thesis
    using that(1) that(5) by (cases "cleanupWorker s") (simp_all add: core_effect_cleanup)
next
  case SyncReady
  then show ?thesis using that(1) by (simp add: sync_ready_def core_def)
next
  case (EditorDidMount python)
  then show ?thesis
    using that(1)
    by (simp add: handleEditorDidMount_def registerProviders_def disposeProviders_def core_def)
next
  case (EditorChange v now)
  show ?thesis
  proof (cases "\<exists>code. v = Some code \<and> isWorkerReady s \<and> code \<noteq> []")
    case True
    then obtain code where "v = Some code" "isWorkerReady s" "code \<noteq> []" by blast
    then have "step ev s = snd (callWorker Req_analyze
        \<lparr> payload_code = Some code, payload_line = None, payload_column = None \<rparr> now s)"
      using EditorChange by (simp add: handleEditorChange_def case_prod_beta)
    then show ?thesis using that(2) [of s] EditorChange by blast
  next
    case False
    then have "step ev s = s"
      using EditorChange by (auto simp: handleEditorChange_def split: option.splits)
    then show ?thesis using that(1) by simp
  qed
next
  case (AnalysisThen response)
  then show ?thesis
    using that(1) by (simp add: analysis_then_def split: option.splits WorkerResponse.splits)
next
  case (CompletionAsked code l c w now)
  show ?thesis
  proof (cases "workerReadyRef s")
    case False
    then show ?thesis using that(1) CompletionAsked by (simp add: provideCompletionItems_def)
  next
    case True
    then have "step ev s = snd (callWorker Req_completion
        \<lparr> payload_code = Some code, payload_line = Some l, payload_column = Some (c - 1) \<rparr> now s)"
      using CompletionAsked
      by (simp add: provideCompletionItems_def case_prod_beta split: call_result.splits)
    then show ?thesis using that(2) [of s] CompletionAsked by blast
  qed
next
  case (HoverAsked code l c now)
  show ?thesis
  proof (cases "workerReadyRef s")
    case False
    then show ?thesis using that(1) HoverAsked by (simp add: provideHover_def)
  next
    case True
    then have "step ev s = snd (callWorker Req_hover
        \<lparr> payload_code = Some code, payload_line = Some l, payload_column = Some (c - 1) \<rparr> now s)"
      using HoverAsked
      by (simp add: provideHover_def case_prod_beta split: call_result.splits)
    then show ?thesis using that(2) [of s] HoverAsked by blast
  qed
qed

lemma counter_callWorker: "requestIdCounter s \<le> requestIdCounter (snd (callWorker ty d now s))"
  by (cases "workerRef s") (auto simp: callWorker_None callWorker_Some increment_ge)

lemma counter_timer_fires [simp]: "requestIdCounter (timer_fires now h s) = requestIdCounter s"
  by (simp add: timer_fires_def timeout_callback_def split: option.splits)

lemma counter_deliver [simp]: "requestIdCounter (deliver m s) = requestIdCounter s"
  by (simp add: deliver_def resolver_def split: option.splits)

lemma counter_step: "requestIdCounter s \<le> requestIdCounter (step ev s)"
proof (cases ev s rule: step_cases)
  case frame
  then show ?thesis by (simp add: core_eq)
next
  case (call ty d now s0)
  then show ?thesis using counter_callWorker [of s0 ty d now] by (simp add: core_eq)
next
  case (timer now h)
  then show ?thesis by simp
next
  case (message m)
  then have "requestIdCounter (step ev s) = requestIdCounter (deliver m s)" by (simp add: core_eq)
  then show ?thesis by simp
next
  case cleanup
  then show ?thesis by (simp add: core_eq)
qed

lemma counter_run: "requestIdCounter s \<le> requestIdCounter (run evs s)"
proof (induction evs arbitrary: s)
  case Nil
  show ?case by simp
next
  case (Cons ev evs)
  from counter_step [of s ev] Cons [of "step ev s"] show ?case by simp
qed

lemma bridge_inv_run:
  "bridge_inv s \<Longrightarrow> requestIdCounter (run evs s) < 2 ^ 53 \<Longrightarrow> bridge_inv (run evs s)"
proof (induction evs arbitrary: s)
  case Nil
  then show ?case by simp
next
  case (Cons ev evs)
  have "requestIdCounter s \<le> requestIdCounter (run (ev # evs) s)" by (rule counter_run)
  with Cons.prems have "requestIdCounter s < 2 ^ 53" by simp
  from bridge_inv_step [OF Cons.prems(1) this] Cons.IH [of "step ev s"] Cons.prems(2)
  show ?case by simp
qed

lemma bridge_inv_initial: "bridge_inv initial_bridge"
  by (simp add: bridge_inv_def issued_ok_def timers_ok_def pending_ok_def resolved_ok_def
      initial_bridge_def)

subsection \<open>Retired ids, waiting calls and abandoned calls\<close>

text \<open>A retired request id stays retired: no later call is made with it.\<close>

lemma retired_core: "core s' = core s \<Longrightarrow> retired rid s' = retired rid s"
  by (simp add: core_eq retired_def)

lemma retired_callWorker:
  assumes "retired rid s" and "bridge_inv s" and "requestIdCounter s < 2 ^ 53"
  shows "retired rid (snd (callWorker ty d now s))"
proof (cases "workerRef s")
  case None
  with assms show ?thesis by (simp add: callWorker_None)
next
  case (Some w)
  from assms(2) have "issued_ok s" by (simp add: bridge_inv_def)
  from fresh_id [OF this assms(3), of ty now] assms(1)
  have "make_requestId ty now (increment (requestIdCounter s)) \<noteq> rid"
    by (auto simp: retired_def)
  with assms(1) show ?thesis by (auto simp: callWorker_Some [OF Some] retired_def)
qed

lemma pending_timer_fires:
  "pendingRequests (timer_fires now h s) rid = None \<or>
   pendingRequests (timer_fires now h s) rid = pendingRequests s rid"
  by (simp add: timer_fires_def timeout_callback_def split: option.splits)

lemma issued_timer_fires [simp]: "issued (timer_fires now h s) = issued s"
  by (simp add: timer_fires_def timeout_callback_def split: option.splits)

lemma pending_deliver:
  "pendingRequests (deliver m s) rid = None \<or>
   pendingRequests (deliver m s) rid = pendingRequests s rid"
  by (simp add: deliver_def resolver_def split: option.splits)

lemma issued_deliver [simp]: "issued (deliver m s) = issued s"
  by (simp add: deliver_def resolver_def split: option.splits)

lemma retired_step:
  assumes "retired rid s" and "bridge_inv s" and "requestIdCounter s < 2 ^ 53"
  shows "retired rid (step ev s)"
proof (cases ev s rule: step_cases)
  case frame
  from retired_core [OF this, of rid] assms(1) show ?thesis by simp
next
  case (call ty d now s0)
  have "retired rid s0" using retired_core [OF call(1), of rid] assms(1) by simp
  moreover have "bridge_inv s0" using bridge_inv_core [OF call(1)] assms(2) by simp
  moreover have "requestIdCounter s0 < 2 ^ 53" using call(1) assms(3) by (simp add: core_eq)
  ultimately show ?thesis using call(2) by (simp add: retired_callWorker)
next
  case (timer now h)
  with assms(1) pending_timer_fires [of now h s rid] show ?thesis by (auto simp: retired_def)
next
  case (message m)
  have "retired rid (deliver m s)"
    using assms(1) pending_deliver [of m s rid] by (auto simp: retired_def)
  with retired_core [OF message(2), of rid] show ?thesis by simp
next
  case cleanup
  have "retired rid (s\<lparr>pendingRequests := Map.empty\<rparr>)" using assms(1) by (simp add: retired_def)
  with retired_core [OF cleanup(2), of rid] show ?thesis by simp
qed

lemma retired_run:
  "retired rid s \<Longrightarrow> bridge_inv s \<Longrightarrow> requestIdCounter (run evs s) < 2 ^ 53 \<Longrightarrow>
   retired rid (run evs s)"
proof (induction evs arbitrary: s)
  case Nil
  then show ?case by simp
next
  case (Cons ev evs)
  have "requestIdCounter s \<le> requestIdCounter (run (ev # evs) s)" by (rule counter_run)
  with Cons.prems have c: "requestIdCounter s < 2 ^ 53" by simp
  from retired_step [OF Cons.prems(1,2) c] bridge_inv_step [OF Cons.prems(2) c]
    Cons.IH [of "step ev s"] Cons.prems(3)
  show ?case by simp
qed

lemma retired_timer_fires: "retired rid s \<Longrightarrow> retired rid (timer_fires now h s)"
  using pending_timer_fires [of now h s rid] by (auto simp: retired_def)

lemma retired_deliver: "retired rid s \<Longrightarrow> retired rid (deliver m s)"
  using pending_deliver [of m s rid] by (auto simp: retired_def)

text \<open>A waiting call keeps waiting through the events that are quiet for it.\<close>

lemma waiting_core: "core s' = core s \<Longrightarrow> waiting h rid dl s' = waiting h rid dl s"
  by (simp add: core_eq waiting_def)

lemma waiting_issued:
  "bridge_inv s \<Longrightarrow> waiting h rid dl s \<Longrightarrow> (h, rid) \<in> set (issued s)"
  unfolding bridge_inv_def pending_ok_def waiting_def by blast

lemma waiting_callWorker:
  assumes "waiting h rid dl s" and "bridge_inv s" and "requestIdCounter s < 2 ^ 53"
  shows "waiting h rid dl (snd (callWorker ty d now s))"
proof (cases "workerRef s")
  case None
  with assms show ?thesis by (simp add: callWorker_None)
next
  case (Some w)
  from assms(2) have i: "issued_ok s" by (simp add: bridge_inv_def)
  have iss: "(h, rid) \<in> set (issued s)" by (rule waiting_issued [OF assms(2,1)])
  from fresh_id [OF i assms(3), of ty now] iss
  have r: "make_requestId ty now (increment (requestIdCounter s)) \<noteq> rid" by force
  from fresh_call [OF i] iss have "nextCall s \<noteq> h" by force
  with r assms(1) show ?thesis by (auto simp: callWorker_Some [OF Some] waiting_def)
qed

lemma waiting_timer_fires:
  assumes "waiting h rid dl s" and "bridge_inv s" and "h' \<noteq> h \<or> now < dl"
  shows "waiting h rid dl (timer_fires now h' s)"
proof (cases "h' = h")
  case True
  with assms show ?thesis by (simp add: waiting_def timer_fires_def)
next
  case False
  show ?thesis
  proof (cases "timers s h'")
    case None
    with assms(1) show ?thesis by (simp add: timer_fires_def)
  next
    case (Some t')
    have "timer_requestId t' \<noteq> rid"
    proof
      assume "timer_requestId t' = rid"
      with assms(1) have "pendingRequests s (timer_requestId t') = Some h" by (simp add: waiting_def)
      from own_entry [OF assms(2) Some this] False show False by simp
    qed
    with assms(1) False Some show ?thesis
      by (auto simp: waiting_def timer_fires_def timeout_callback_def)
  qed
qed

lemma waiting_deliver:
  assumes "waiting h rid dl s" and "bridge_inv s" and "response_id m \<noteq> rid"
  shows "waiting h rid dl (deliver m s)"
proof (cases "response_id m = [] \<or> pendingRequests s (response_id m) = None")
  case True
  with assms(1) show ?thesis by (simp add: deliver_unmatched)
next
  case False
  then obtain h' where ne: "response_id m \<noteq> []"
    and h': "pendingRequests s (response_id m) = Some h'" by auto
  from entry_timer [OF assms(2) h'] obtain t' where "timers s h' = Some t'"
    "timer_requestId t' = response_id m" by blast
  with assms(1,3) have "h' \<noteq> h" by (auto simp: waiting_def)
  with assms(1,3) show ?thesis by (auto simp: deliver_matched [OF ne h'] waiting_def)
qed

lemma waiting_step:
  assumes "waiting h rid dl s" and "bridge_inv s" and "requestIdCounter s < 2 ^ 53"
    and "quiet h rid dl ev"
  shows "waiting h rid dl (step ev s)"
proof (cases ev s rule: step_cases)
  case frame
  from waiting_core [OF this, of h rid dl] assms(1) show ?thesis by simp
next
  case (call ty d now s0)
  have "waiting h rid dl s0" using waiting_core [OF call(1), of h rid dl] assms(1) by simp
  moreover have "bridge_inv s0" using bridge_inv_core [OF call(1)] assms(2) by simp
  moreover have "requestIdCounter s0 < 2 ^ 53" using call(1) assms(3) by (simp add: core_eq)
  ultimately show ?thesis using call(2) by (simp add: waiting_callWorker)
next
  case (timer now h')
  with assms(4) have "h' \<noteq> h \<or> now < dl" by simp
  from waiting_timer_fires [OF assms(1,2) this] timer(2) show ?thesis by simp
next
  case (message m)
  with assms(4) have "response_id m \<noteq> rid" by simp
  from waiting_deliver [OF assms(1,2) this] waiting_core [OF message(2), of h rid dl]
  show ?thesis by simp
next
  case cleanup
  with assms(4) show ?thesis by simp
qed

lemma waiting_run:
  "waiting h rid dl s \<Longrightarrow> bridge_inv s \<Longrightarrow> requestIdCounter (run evs s) < 2 ^ 53 \<Longrightarrow>
   list_all (quiet h rid dl) evs \<Longrightarrow> waiting h rid dl (run evs s)"
proof (induction evs arbitrary: s)
  case Nil
  then show ?case by simp
next
  case (Cons ev evs)
  have "requestIdCounter s \<le> requestIdCounter (run (ev # evs) s)" by (rule counter_run)
  with Cons.prems have c: "requestIdCounter s < 2 ^ 53" by simp
  from Cons.prems(4) have q: "quiet h rid dl ev" and qs: "list_all (quiet h rid dl) evs" by simp_all
  from waiting_step [OF Cons.prems(1,2) c q] bridge_inv_step [OF Cons.prems(2) c]
    Cons.IH [of "step ev s"] Cons.prems(3) qs
  show ?case by simp
qed

lemma resolved_run_quiet:
  "waiting h rid dl s \<Longrightarrow> bridge_inv s \<Longrightarrow> requestIdCounter (run evs s) < 2 ^ 53 \<Longrightarrow>
   list_all (quiet h rid dl) evs \<Longrightarrow> h \<notin> fst ` set (resolved (run evs s))"
proof -
  assume a: "waiting h rid dl s" "bridge_inv s" "requestIdCounter (run evs s) < 2 ^ 53"
    "list_all (quiet h rid dl) evs"
  from waiting_run [OF a] have "timers (run evs s) h \<noteq> None" by (simp add: waiting_def)
  moreover have "bridge_inv (run evs s)" by (rule bridge_inv_run [OF a(2,3)])
  ultimately show ?thesis using not_resolved_while_timed by blast
qed

lemma waiting_after_call:
  assumes "workerRef s = Some w"
  shows "waiting (nextCall s) (make_requestId ty now (increment (requestIdCounter s))) (now + 5000)
     (snd (callWorker ty d now s))"
  by (simp add: callWorker_Some [OF assms] waiting_def)

text \<open>An abandoned call stays abandoned: nothing resolves its promise any more.\<close>

lemma abandoned_core: "core s' = core s \<Longrightarrow> abandoned h s' = abandoned h s"
  by (auto simp: core_eq abandoned_def retired_def split: option.splits)

lemma abandoned_callWorker:
  assumes "abandoned h s" and "bridge_inv s" and "requestIdCounter s < 2 ^ 53"
  shows "abandoned h (snd (callWorker ty d now s))"
proof (cases "workerRef s")
  case None
  with assms show ?thesis by (simp add: callWorker_None)
next
  case (Some w)
  let ?s' = "snd (callWorker ty d now s)"
  from assms(1) have ne: "nextCall s \<noteq> h" by (auto simp: abandoned_def)
  have t: "timers ?s' h = timers s h" using ne by (simp add: callWorker_Some [OF Some])
  have r: "\<And>rid. retired rid s \<Longrightarrow> retired rid ?s'"
    using retired_callWorker [OF _ assms(2,3)] by simp
  have "h \<notin> fst ` set (resolved ?s')" "h < nextCall ?s'" "\<forall>rid. pendingRequests ?s' rid \<noteq> Some h"
    using assms(1) ne by (auto simp: callWorker_Some [OF Some] abandoned_def)
  moreover have "case timers ?s' h of None \<Rightarrow> True | Some t \<Rightarrow> retired (timer_requestId t) ?s'"
    using assms(1) r unfolding t abandoned_def by (auto split: option.splits)
  ultimately show ?thesis by (simp add: abandoned_def)
qed

lemma abandoned_timer_fires:
  assumes "abandoned h s"
  shows "abandoned h (timer_fires now h' s)"
proof (cases "\<exists>t'. timers s h' = Some t' \<and> due t' \<le> now")
  case False
  then have "timer_fires now h' s = s"
    by (intro timer_fires_not_due) (cases "timers s h'", auto)
  with assms show ?thesis by simp
next
  case True
  then obtain t' where t': "timers s h' = Some t'" and due: "due t' \<le> now" by blast
  show ?thesis
  proof (cases "h' = h")
    case True
    with assms t' have "pendingRequests s (timer_requestId t') = None"
      by (simp add: abandoned_def retired_def)
    from timer_fires_gone [OF t' due this] assms True show ?thesis
      by (simp add: abandoned_def)
  next
    case False
    have r: "\<And>rid. retired rid s \<Longrightarrow> retired rid (timer_fires now h' s)"
      by (rule retired_timer_fires)
    have t: "timers (timer_fires now h' s) h = timers s h"
      using False t' by (simp add: timer_fires_def timeout_callback_def)
    have "h \<notin> fst ` set (resolved (timer_fires now h' s))"
      "h < nextCall (timer_fires now h' s)"
      "\<forall>rid. pendingRequests (timer_fires now h' s) rid \<noteq> Some h"
      using assms False t' by (auto simp: timer_fires_def timeout_callback_def abandoned_def)
    moreover have "case timers (timer_fires now h' s) h of None \<Rightarrow> True
        | Some t \<Rightarrow> retired (timer_requestId t) (timer_fires now h' s)"
      using assms r unfolding t abandoned_def by (auto split: option.splits)
    ultimately show ?thesis by (simp add: abandoned_def)
  qed
qed

lemma abandoned_deliver:
  assumes "abandoned h s"
  shows "abandoned h (deliver m s)"
proof (cases "response_id m = [] \<or> pendingRequests s (response_id m) = None")
  case True
  with assms show ?thesis by (simp add: deliver_unmatched)
next
  case False
  then obtain h' where ne: "response_id m \<noteq> []"
    and h': "pendingRequests s (response_id m) = Some h'" by auto
  with assms have d: "h' \<noteq> h" by (auto simp: abandoned_def)
  have r: "\<And>rid. retired rid s \<Longrightarrow> retired rid (deliver m s)" by (rule retired_deliver)
  have t: "timers (deliver m s) h = timers s h" using d by (simp add: deliver_matched [OF ne h'])
  have "h \<notin> fst ` set (resolved (deliver m s))" "h < nextCall (deliver m s)"
    "\<forall>rid. pendingRequests (deliver m s) rid \<noteq> Some h"
    using assms d by (auto simp: deliver_matched [OF ne h'] abandoned_def)
  moreover have "case timers (deliver m s) h of None \<Rightarrow> True
      | Some t \<Rightarrow> retired (timer_requestId t) (deliver m s)"
    using assms r unfolding t abandoned_def by (auto split: option.splits)
  ultimately show ?thesis by (simp add: abandoned_def)
qed

lemma abandoned_step:
  assumes "abandoned h s" and "bridge_inv s" and "requestIdCounter s < 2 ^ 53"
  shows "abandoned h (step ev s)"
proof (cases ev s rule: step_cases)
  case frame
  from abandoned_core [OF this, of h] assms(1) show ?thesis by simp
next
  case (call ty d now s0)
  have "abandoned h s0" using abandoned_core [OF call(1), of h] assms(1) by simp
  moreover have "bridge_inv s0" using bridge_inv_core [OF call(1)] assms(2) by simp
  moreover have "requestIdCounter s0 < 2 ^ 53" using call(1) assms(3) by (simp add: core_eq)
  ultimately show ?thesis using call(2) by (simp add: abandoned_callWorker)
next
  case (timer now h')
  with abandoned_timer_fires [OF assms(1)] show ?thesis by simp
next
  case (message m)
  from abandoned_deliver [OF assms(1)] abandoned_core [OF message(2), of h]
  show ?thesis by simp
next
  case cleanup
  have "abandoned h (s\<lparr>pendingRequests := Map.empty\<rparr>)"
    using assms(1) by (auto simp: abandoned_def retired_def split: option.splits)
  with abandoned_core [OF cleanup(2), of h] show ?thesis by simp
qed

lemma abandoned_run:
  "abandoned h s \<Longrightarrow> bridge_inv s \<Longrightarrow> requestIdCounter (run evs s) < 2 ^ 53 \<Longrightarrow>
   abandoned h (run evs s)"
proof (induction evs arbitrary: s)
  case Nil
  then show ?case by simp
next
  case (Cons ev evs)
  have "requestIdCounter s \<le> requestIdCounter (run (ev # evs) s)" by (rule counter_run)
  with Cons.prems have c: "requestIdCounter s < 2 ^ 53" by simp
  from abandoned_step [OF Cons.prems(1,2) c] bridge_inv_step [OF Cons.prems(2) c]
    Cons.IH [of "step ev s"] Cons.prems(3)
  show ?case by simp
qed

lemma effect_cleanup_Some:
  "cleanupWorker s = Some w \<Longrightarrow>
   effect_cleanup s =
     s\<lparr> pendingRequests := Map.empty, isWorkerReady := False, providerDisposables := [],
        terminated := terminated s @ [w], workerRef := None, cleanupWorker := None \<rparr>"
  by (simp add: effect_cleanup_def disposeProviders_def)

lemma abandoned_after_cleanup:
  assumes "bridge_inv s" and "pendingRequests s rid = Some h" and "cleanupWorker s = Some w"
  shows "abandoned h (effect_cleanup s)"
proof -
  from entry_timer [OF assms(1,2)] obtain t where t: "timers s h = Some t"
    and rid: "timer_requestId t = rid" by blast
  have "h \<notin> fst ` set (resolved s)" by (rule not_resolved_while_timed [OF assms(1) t])
  moreover from assms(1,2) have i: "(h, rid) \<in> set (issued s)"
    unfolding bridge_inv_def pending_ok_def by blast
  moreover from assms(1) i have "h < nextCall s" unfolding bridge_inv_def issued_ok_def by blast
  ultimately show ?thesis
    using t rid by (force simp: effect_cleanup_Some [OF assms(3)] abandoned_def retired_def)
qed

subsection \<open>The page of the examples\<close>

lemma digit_values:
  "digit 0 = CHR ''0''" "digit (Suc 0) = CHR ''1''" "digit (Suc (Suc 0)) = CHR ''2''"
  "digit 1 = CHR ''1''" "digit 2 = CHR ''2''"
  "digit 3 = CHR ''3''" "digit 4 = CHR ''4''" "digit 5 = CHR ''5''" "digit 6 = CHR ''6''"
  "digit 7 = CHR ''7''" "digit 8 = CHR ''8''" "digit 9 = CHR ''9''"
  by (simp_all add: digit_def)

lemma spawned_bridge_fields:
  "workerRef spawned_bridge = Some 0"
  "cleanupWorker spawned_bridge = Some 0"
  "requestIdCounter spawned_bridge = 1"
  "nextCall spawned_bridge = 1"
  "pendingRequests spawned_bridge = [''initialize-0-1'' \<mapsto> 0]"
  "timers spawned_bridge = [0 \<mapsto> \<lparr> due = 5000, timer_requestId = ''initialize-0-1'' \<rparr>]"
  "issued spawned_bridge = [(0, ''initialize-0-1'')]"
  "resolved spawned_bridge = []"
  "posted spawned_bridge =
     [(0, \<lparr> msg_type = Req_initialize, msg_data = empty_payload,
            msg_requestId = ''initialize-0-1'' \<rparr>)]"
  "isWorkerReady spawned_bridge = False"
  "workerReadyRef spawned_bridge = False"
  by (simp_all add: spawned_bridge_def initial_bridge_def effect_setup_def callWorker_def
      Let_def increment_def make_requestId_def digit_values)

lemma asking_bridge_fields:
  "workerRef asking_bridge = Some 0"
  "cleanupWorker asking_bridge = Some 0"
  "requestIdCounter asking_bridge = 2"
  "nextCall asking_bridge = 2"
  "pendingRequests asking_bridge = [''completion-100-2'' \<mapsto> 1]"
  "timers asking_bridge = [1 \<mapsto> \<lparr> due = 5100, timer_requestId = ''completion-100-2'' \<rparr>]"
  "issued asking_bridge = [(0, ''initialize-0-1''), (1, ''completion-100-2'')]"
  "resolved asking_bridge = [(0, Some (Initialized ''initialize-0-1'' True None))]"
  "isWorkerReady asking_bridge = True"
  "workerReadyRef asking_bridge = True"
  by (simp_all add: asking_bridge_def spawned_bridge_fields onmessage_def deliver_def
      resolver_def note_initialized_def sync_ready_def provideCompletionItems_def
      callWorker_def Let_def increment_def make_requestId_def digit_values fun_upd_twist)

lemma bridge_inv_spawned: "bridge_inv spawned_bridge"
proof -
  have "requestIdCounter (run [EffectSetup True 0] initial_bridge) < 2 ^ 53"
    using spawned_bridge_fields(3) by (simp only: spawned_bridge_def [symmetric]) simp
  from bridge_inv_run [OF bridge_inv_initial this] show ?thesis
    by (simp only: spawned_bridge_def)
qed

lemma bridge_inv_asking: "bridge_inv asking_bridge"
proof -
  have "requestIdCounter (run [Message (Initialized ''initialize-0-1'' True None), SyncReady,
          CompletionAsked ''fo'' 1 3 1 100] spawned_bridge) < 2 ^ 53"
    using asking_bridge_fields(3) by (simp only: asking_bridge_def [symmetric]) simp
  from bridge_inv_run [OF bridge_inv_spawned this] show ?thesis
    by (simp only: asking_bridge_def)
qed

lemma torn_down_fields:
  "requestIdCounter (run [TimerFires 5100 1, Message (CompletionResponse ''completion-100-2'' [])]
      (effect_cleanup asking_bridge)) = 2"
  "resolved (run [TimerFires 5100 1, Message (CompletionResponse ''completion-100-2'' [])]
      (effect_cleanup asking_bridge)) = [(0, Some (Initialized ''initialize-0-1'' True None))]"
  "timers (run [TimerFires 5100 1, Message (CompletionResponse ''completion-100-2'' [])]
      (effect_cleanup asking_bridge)) 1 = None"
  by (simp_all add: effect_cleanup_Some [OF asking_bridge_fields(2)] asking_bridge_fields
      timer_fires_def timeout_callback_def onmessage_def deliver_def note_initialized_def)

lemma answered_fields:
  "requestIdCounter (run [TimerFires 5100 1]
      (onmessage (CompletionResponse ''completion-100-2'' []) asking_bridge)) = 2"
  "resolved (onmessage (CompletionResponse ''completion-100-2'' []) asking_bridge) =
     [(0, Some (Initialized ''initialize-0-1'' True None)),
      (1, Some (CompletionResponse ''completion-100-2'' []))]"
  "resolved (run [TimerFires 5100 1]
      (onmessage (CompletionResponse ''completion-100-2'' []) asking_bridge)) =
     [(0, Some (Initialized ''initialize-0-1'' True None)),
      (1, Some (CompletionResponse ''completion-100-2'' []))]"
  by (simp_all add: asking_bridge_fields timer_fires_def timeout_callback_def onmessage_def
      deliver_def resolver_def note_initialized_def)

lemma asking_bridge_posted:
  "as_worker_request (snd (last (posted asking_bridge)))
     = Some (Completion ''completion-100-2'' ''fo'' 1 2)"
  by (simp add: asking_bridge_def spawned_bridge_fields onmessage_def deliver_def
      resolver_def note_initialized_def sync_ready_def provideCompletionItems_def
      callWorker_def Let_def increment_def make_requestId_def digit_values
      as_worker_request_def)

subsection \<open>Before the worker is ready\<close>

text \<open>
  Claim C5: while \<open>jediInitialized\<close> is false, the worker answers an analyze, completion,
  hover or definition request with the empty list of diagnostics, the empty list of
  completions, no hover and the empty list of definitions, and its state, with the log
  of the calls made to the runtime, stays as it is. In the editor, the completion and
  hover providers return no suggestions and no hover while \<open>workerReadyRef\<close> is false, and
  \<open>handleEditorChange\<close> makes no call while \<open>isWorkerReady\<close> is false (no diagnostics are
  applied); each leaves the bridge as it is, so that no message is posted and no entry
  is added to the table.
\<close>

theorem not_ready_short_circuit:
  assumes "\<not> jediInitialized st" and "\<not> workerReadyRef s" and "\<not> isWorkerReady s"
  shows "worker_listener e (Analyze requestId code) st = ([Analysis requestId []], st) \<and>
    worker_listener e (Completion requestId code l c) st = ([CompletionResponse requestId []], st) \<and>
    worker_listener e (Hover requestId code l c) st = ([HoverResponse requestId None], st) \<and>
    worker_listener e (Definition requestId code l c) st = ([DefinitionResponse requestId []], st) \<and>
    provideCompletionItems code lineNumber column wordStart now s = (Done [], s) \<and>
    provideHover code lineNumber column now s = (Done None, s) \<and>
    handleEditorChange v now s = (None, s)"
  using assms
  by (simp only: not_ready_defaults [OF assms(1)] simp_thms)
     (simp add: provideCompletionItems_def provideHover_def handleEditorChange_def
        split: option.splits)

theorem not_ready_short_circuit_witness:
  "\<not> jediInitialized failed_worker \<and> \<not> workerReadyRef spawned_bridge \<and>
   \<not> isWorkerReady spawned_bridge \<and> workerRef spawned_bridge = Some 0 \<and>
   worker_listener env_online (Analyze ''analyze-7-2'' ''x = 1'') failed_worker =
     ([Analysis ''analyze-7-2'' []], failed_worker) \<and>
   worker_listener env_online (Completion ''completion-7-2'' ''fo'' 1 2) failed_worker =
     ([CompletionResponse ''completion-7-2'' []], failed_worker) \<and>
   worker_listener env_online (Hover ''hover-7-2'' ''fo'' 1 2) failed_worker =
     ([HoverResponse ''hover-7-2'' None], failed_worker) \<and>
   worker_listener env_online (Definition ''definition-7-2'' ''fo'' 1 2) failed_worker =
     ([DefinitionResponse ''definition-7-2'' []], failed_worker) \<and>
   provideCompletionItems ''fo'' 1 3 1 100 spawned_bridge = (Done [], spawned_bridge) \<and>
   provideHover ''fo'' 1 3 100 spawned_bridge = (Done None, spawned_bridge) \<and>
   handleEditorChange (Some ''x = 1'') 100 spawned_bridge = (None, spawned_bridge)"
proof -
  have j: "\<not> jediInitialized failed_worker" by (simp add: failed_worker_def)
  have r: "\<not> workerReadyRef spawned_bridge" by (simp add: spawned_bridge_fields)
  have i: "\<not> isWorkerReady spawned_bridge" by (simp add: spawned_bridge_fields)
  from not_ready_short_circuit [OF j r i, where e = env_online and requestId = "''analyze-7-2''"
      and code = "''x = 1''" and v = "Some ''x = 1''" and now = 100]
    not_ready_short_circuit [OF j r i, where e = env_online and requestId = "''completion-7-2''"
      and code = "''fo''" and l = 1 and c = 2 and lineNumber = 1 and column = 3
      and wordStart = 1 and now = 100]
    not_ready_short_circuit [OF j r i, where e = env_online and requestId = "''hover-7-2''"
      and code = "''fo''" and l = 1 and c = 2 and lineNumber = 1 and column = 3 and now = 100]
    not_ready_short_circuit [OF j r i, where e = env_online and requestId = "''definition-7-2''"
      and code = "''fo''" and l = 1 and c = 2]
    j r i spawned_bridge_fields(1)
  show ?thesis by (simp del: worker_listener.simps)
qed

subsection \<open>Requests and their responses\<close>

lemma listener_ids: "\<forall>x \<in> set (fst (worker_listener e req st)). response_id x = request_id req"
  by (cases req) (simp_all add: case_prod_beta split: outcome.splits)

lemma listener_one_response:
  "length (fst (worker_listener e req st)) = (if known_kind req then 1 else 0)"
  by (cases req) (simp_all add: case_prod_beta split: outcome.splits)

lemma as_worker_request_id:
  "as_worker_request m = Some rq \<Longrightarrow> request_id rq = msg_requestId m \<and> known_kind rq"
  by (cases "msg_type m")
     (auto simp: as_worker_request_def Let_def split: option.splits)

lemma callWorker_posts:
  assumes "callWorker ty d now s0 = (Promise k, s1)"
  shows "\<exists>w m. posted s1 = posted s0 @ [(w, m)] \<and> workerRef s0 = Some w \<and>
           msg_type m = ty \<and> msg_data m = d \<and>
           pendingRequests s1 (msg_requestId m) = Some k"
proof -
  from assms obtain w where w: "workerRef s0 = Some w" and "k = nextCall s0"
    and "s1 = snd (callWorker ty d now s0)" by (rule callWorker_Promise)
  then show ?thesis by (simp add: callWorker_Some [OF w])
qed

lemma issued_not_Nil:
  assumes "bridge_inv s" and "pendingRequests s rid = Some h"
  shows "rid \<noteq> []"
proof -
  from assms have "(h, rid) \<in> set (issued s)" unfolding bridge_inv_def pending_ok_def by blast
  with assms(1) obtain ty n c where "rid = make_requestId ty n c"
    unfolding bridge_inv_def issued_ok_def by blast
  then show ?thesis by (simp add: make_requestId_not_Nil)
qed

text \<open>
  Claim C1: the worker answers a request of a known kind with exactly one response (and a
  message of no known kind with none), and every response it posts carries the
  \<open>requestId\<close> of the request; the message \<open>callWorker\<close> posts is read by the worker as
  a request of a known kind with the id under which the call stored its resolver. When
  a response \<open>r\<close> arrives while the table holds the resolver of call \<open>h\<close> under its id,
  the promise of \<open>h\<close> was not resolved before, \<open>onmessage\<close> removes the entry and
  resolves the promise with \<open>r\<close>, and after any further events a second response with
  the same id changes neither the table nor the log of the calls of \<open>resolve\<close>. In the
  state reached no promise has been resolved twice and no request id has been used for two
  calls. (The bound says that the counter is still exact as a JavaScript number.)
\<close>

theorem request_response_correlation:
  assumes inv: "bridge_inv s"
    and pending: "pendingRequests s (response_id r) = Some h"
    and again: "response_id r2 = response_id r"
    and bound: "requestIdCounter (run evs (onmessage r s)) < 2 ^ 53"
  shows "(\<forall>x \<in> set (fst (worker_listener e req st)). response_id x = request_id req) \<and>
    length (fst (worker_listener e req st)) = (if known_kind req then 1 else 0) \<and>
    (callWorker ty d now s0 = (Promise k, s1) \<longrightarrow>
       (\<exists>w m. posted s1 = posted s0 @ [(w, m)] \<and> pendingRequests s1 (msg_requestId m) = Some k \<and>
          (\<forall>rq. as_worker_request m = Some rq \<longrightarrow>
             request_id rq = msg_requestId m \<and> known_kind rq))) \<and>
    h \<notin> fst ` set (resolved s) \<and>
    pendingRequests (onmessage r s) = (pendingRequests s)(response_id r := None) \<and>
    resolved (onmessage r s) = resolved s @ [(h, Some r)] \<and>
    resolved (onmessage r2 (run evs (onmessage r s))) = resolved (run evs (onmessage r s)) \<and>
    pendingRequests (onmessage r2 (run evs (onmessage r s)))
      = pendingRequests (run evs (onmessage r s)) \<and>
    distinct (map fst (resolved (run evs (onmessage r s)))) \<and>
    distinct (map snd (issued (run evs (onmessage r s))))"
proof -
  let ?s' = "onmessage r s" and ?s'' = "run evs (onmessage r s)"
  have ne: "response_id r \<noteq> []" by (rule issued_not_Nil [OF inv pending])
  from entry_timer [OF inv pending] obtain t where t: "timers s h = Some t" by blast
  have nr: "h \<notin> fst ` set (resolved s)" by (rule not_resolved_while_timed [OF inv t])
  have d: "deliver r s = s\<lparr> pendingRequests := (pendingRequests s)(response_id r := None),
        timers := (timers s)(h := None), resolved := resolved s @ [(h, Some r)] \<rparr>"
    by (rule deliver_matched [OF ne pending])
  have p': "pendingRequests ?s' = (pendingRequests s)(response_id r := None)"
    and r': "resolved ?s' = resolved s @ [(h, Some r)]"
    using core_note_initialized [of r "deliver r s"]
    unfolding onmessage_def core_eq by (simp_all add: d)
  have i': "bridge_inv ?s'" by (rule bridge_inv_onmessage [OF inv])
  have i'': "bridge_inv ?s''" by (rule bridge_inv_run [OF i' bound])
  from inv pending have "(h, response_id r) \<in> set (issued s)"
    unfolding bridge_inv_def pending_ok_def by blast
  moreover have "issued ?s' = issued s"
    using core_note_initialized [of r "deliver r s"] unfolding onmessage_def core_eq by simp
  ultimately have "retired (response_id r) ?s'" using p' by (force simp: retired_def)
  from retired_run [OF this i' bound] again
  have "deliver r2 ?s'' = ?s''" by (intro deliver_unmatched) (simp add: retired_def)
  then have "core (onmessage r2 ?s'') = core ?s''" by (simp add: onmessage_def)
  then have o: "resolved (onmessage r2 ?s'') = resolved ?s''"
    "pendingRequests (onmessage r2 ?s'') = pendingRequests ?s''" by (simp_all add: core_eq)
  have dist: "distinct (map fst (resolved ?s''))" "distinct (map snd (issued ?s''))"
    using i'' unfolding bridge_inv_def resolved_ok_def issued_ok_def by simp_all
  have c: "callWorker ty d now s0 = (Promise k, s1) \<longrightarrow>
       (\<exists>w m. posted s1 = posted s0 @ [(w, m)] \<and> pendingRequests s1 (msg_requestId m) = Some k \<and>
          (\<forall>rq. as_worker_request m = Some rq \<longrightarrow>
             request_id rq = msg_requestId m \<and> known_kind rq))"
    using callWorker_posts [of ty d now s0 k s1] as_worker_request_id by blast
  show ?thesis
    using listener_ids [of e req st] listener_one_response [of e req st] c nr p' r' o dist
    by (intro conjI) assumption+
qed

theorem request_response_correlation_witness:
  "bridge_inv asking_bridge \<and>
   pendingRequests asking_bridge ''completion-100-2'' = Some 1 \<and>
   as_worker_request (snd (last (posted asking_bridge)))
     = Some (Completion ''completion-100-2'' ''fo'' 1 2) \<and>
   length (fst (worker_listener env_online (Completion ''completion-100-2'' ''fo'' 1 2)
                  ready_worker)) = 1 \<and>
   response_id (hd (fst (worker_listener env_online (Completion ''completion-100-2'' ''fo'' 1 2)
                  ready_worker))) = ''completion-100-2'' \<and>
   resolved (onmessage (CompletionResponse ''completion-100-2'' []) asking_bridge) =
     [(0, Some (Initialized ''initialize-0-1'' True None)),
      (1, Some (CompletionResponse ''completion-100-2'' []))] \<and>
   resolved (onmessage (CompletionResponse ''completion-100-2'' [])
       (run [TimerFires 5100 1]
          (onmessage (CompletionResponse ''completion-100-2'' []) asking_bridge))) =
     [(0, Some (Initialized ''initialize-0-1'' True None)),
      (1, Some (CompletionResponse ''completion-100-2'' []))]"
proof -
  let ?r = "CompletionResponse ''completion-100-2'' []"
  have p: "pendingRequests asking_bridge (response_id ?r) = Some 1"
    by (simp add: asking_bridge_fields)
  have a: "response_id ?r = response_id ?r" by simp
  have b: "requestIdCounter (run [TimerFires 5100 1] (onmessage ?r asking_bridge)) < 2 ^ 53"
    by (simp only: answered_fields) simp
  have w: "fst (worker_listener env_online (Completion ''completion-100-2'' ''fo'' 1 2)
      ready_worker) = [CompletionResponse ''completion-100-2''
          (replicate 50 \<lparr> item_name = ''foo'', item_type = ''function'',
             item_description = ''def foo'', item_signature = ''foo()'', item_docstring = [],
             item_insert_text = ''o'' \<rparr>)]"
    using sample_completions [of "''fo''" 1 2] by (simp add: case_prod_beta)
  from request_response_correlation [OF bridge_inv_asking p a b,
      of env_online "Completion ''completion-100-2'' ''fo'' 1 2" ready_worker]
    bridge_inv_asking p asking_bridge_posted
  show ?thesis by (simp only: answered_fields w) simp
qed

subsection \<open>Timeouts\<close>

text \<open>
  Without a cleanup in between: a call whose response does not arrive is resolved with
  \<open>null\<close> by its timer, not before 5000 ms, its entry is removed then, and a response
  that arrives later finds no entry and changes nothing.
\<close>

lemma timeout_without_teardown:
  assumes inv: "bridge_inv s"
    and call: "callWorker ty d now s = (Promise h, s1)"
    and rid: "rid = make_requestId ty now (increment (requestIdCounter s))"
    and quiet: "list_all (quiet h rid (now + 5000)) evs"
    and due: "now + 5000 \<le> now'"
    and bound: "requestIdCounter (run evs' (timer_fires now' h (run evs s1))) < 2 ^ 53"
    and late: "response_id m = rid"
  shows "h \<notin> fst ` set (resolved (run evs s1)) \<and>
    resolved (timer_fires now' h (run evs s1)) = resolved (run evs s1) @ [(h, None)] \<and>
    pendingRequests (timer_fires now' h (run evs s1)) = (pendingRequests (run evs s1))(rid := None) \<and>
    timers (timer_fires now' h (run evs s1)) h = None \<and>
    deliver m (run evs' (timer_fires now' h (run evs s1))) =
      run evs' (timer_fires now' h (run evs s1))"
proof -
  let ?s2 = "run evs s1" and ?s3 = "timer_fires now' h (run evs s1)"
  from call obtain w where w: "workerRef s = Some w" and h: "h = nextCall s"
    and s1: "s1 = snd (callWorker ty d now s)" by (rule callWorker_Promise)
  have c3: "requestIdCounter ?s3 < 2 ^ 53"
    using counter_run [of ?s3 evs'] bound by simp
  then have c2: "requestIdCounter ?s2 < 2 ^ 53" by simp
  then have c1: "requestIdCounter s1 < 2 ^ 53" using counter_run [of s1 evs] by simp
  then have c0: "requestIdCounter s < 2 ^ 53"
    using counter_callWorker [of s ty d now] s1 by simp
  have i1: "bridge_inv s1" unfolding s1 by (rule bridge_inv_callWorker [OF inv c0])
  have w1: "waiting h rid (now + 5000) s1"
    unfolding s1 h rid by (rule waiting_after_call [OF w])
  have w2: "waiting h rid (now + 5000) ?s2" by (rule waiting_run [OF w1 i1 c2 quiet])
  have i2: "bridge_inv ?s2" by (rule bridge_inv_run [OF i1 c2])
  have nr: "h \<notin> fst ` set (resolved ?s2)" by (rule resolved_run_quiet [OF w1 i1 c2 quiet])
  from w2 have t: "timers ?s2 h = Some \<lparr> due = now + 5000, timer_requestId = rid \<rparr>"
    and p: "pendingRequests ?s2 rid = Some h" by (simp_all add: waiting_def)
  have f: "?s3 = ?s2\<lparr> timers := (timers ?s2)(h := None),
        pendingRequests := (pendingRequests ?s2)(rid := None),
        resolved := resolved ?s2 @ [(h, None)] \<rparr>"
    using timer_fires_pending [OF t, of now'] due p by simp
  have i3: "bridge_inv ?s3" by (rule bridge_inv_timer_fires [OF i2])
  have "(h, rid) \<in> set (issued ?s2)" by (rule waiting_issued [OF i2 w2])
  then have "retired rid ?s3" by (subst f) (force simp: retired_def)
  from retired_run [OF this i3 bound] late
  have "deliver m (run evs' ?s3) = run evs' ?s3"
    by (intro deliver_unmatched) (simp add: retired_def)
  moreover have "resolved ?s3 = resolved ?s2 @ [(h, None)]" by (subst f) simp
  moreover have "pendingRequests ?s3 = (pendingRequests ?s2)(rid := None)" by (subst f) simp
  moreover have "timers ?s3 h = None" by (subst f) simp
  ultimately show ?thesis using nr by simp
qed

text \<open>
  Claim C2 says that every call with no matching response within 5000 ms resolves to
  \<open>null\<close>. This call does not: the editor is mounted for Python at time 0, which makes
  call 0 with the request id \<open>initialize-0-1\<close>, stores its resolver and sets its timer for
  5000; the cleanup of the effect runs before the worker answers; the timer comes due at
  5000. After that the call has been made, its timer has run, the table is empty, and
  \<open>resolve\<close> has not been called at all.
\<close>

theorem timeout_after_teardown_resolves_nothing:
  "issued (run [EffectSetup True 0, EffectCleanup, TimerFires 5000 0] initial_bridge)
     = [(0, ''initialize-0-1'')] \<and>
   pendingRequests (run [EffectSetup True 0] initial_bridge) ''initialize-0-1'' = Some 0 \<and>
   timers (run [EffectSetup True 0] initial_bridge) 0
     = Some \<lparr> due = 5000, timer_requestId = ''initialize-0-1'' \<rparr> \<and>
   timers (run [EffectSetup True 0, EffectCleanup, TimerFires 5000 0] initial_bridge) 0 = None \<and>
   pendingRequests (run [EffectSetup True 0, EffectCleanup, TimerFires 5000 0] initial_bridge)
     = Map.empty \<and>
   resolved (run [EffectSetup True 0, EffectCleanup, TimerFires 5000 0] initial_bridge) = []"
proof -
  have "run [EffectSetup True 0, EffectCleanup, TimerFires 5000 0] initial_bridge
      = timer_fires 5000 0 (effect_cleanup spawned_bridge)"
    by (simp add: spawned_bridge_def)
  moreover have "run [EffectSetup True 0] initial_bridge = spawned_bridge"
    by (simp add: spawned_bridge_def)
  ultimately show ?thesis
    by (simp only: effect_cleanup_Some [OF spawned_bridge_fields(2)])
       (simp add: spawned_bridge_fields timer_fires_def timeout_callback_def)
qed

subsection \<open>Teardown\<close>

text \<open>
  Claim C3 says that the teardown resolves every promise in flight and leaves the table
  empty. When the cleanup of the effect runs while the table holds the resolver of call
  \<open>h\<close>, the table is left empty, but the cleanup calls no resolver, the promise of \<open>h\<close>
  is not resolved, and it stays unresolved after every sequence of events that follows:
  the timer of the call finds no entry, and a late response finds none either.
\<close>

theorem teardown_abandons_pending_calls:
  assumes "bridge_inv s" and "pendingRequests s rid = Some h" and "cleanupWorker s = Some w"
    and "requestIdCounter (run evs (effect_cleanup s)) < 2 ^ 53"
  shows "pendingRequests (effect_cleanup s) = Map.empty \<and>
    resolved (effect_cleanup s) = resolved s \<and>
    h \<notin> fst ` set (resolved s) \<and>
    h \<notin> fst ` set (resolved (run evs (effect_cleanup s)))"
proof -
  have a: "abandoned h (effect_cleanup s)" by (rule abandoned_after_cleanup [OF assms(1,2,3)])
  have i: "bridge_inv (effect_cleanup s)" by (rule bridge_inv_effect_cleanup [OF assms(1)])
  from abandoned_run [OF a i assms(4)]
  have "h \<notin> fst ` set (resolved (run evs (effect_cleanup s)))" by (simp add: abandoned_def)
  moreover from a have "h \<notin> fst ` set (resolved (effect_cleanup s))" by (simp add: abandoned_def)
  ultimately show ?thesis by (simp add: effect_cleanup_Some [OF assms(3)])
qed

theorem teardown_abandons_pending_calls_witness:
  "bridge_inv asking_bridge \<and>
   pendingRequests asking_bridge ''completion-100-2'' = Some 1 \<and>
   cleanupWorker asking_bridge = Some 0 \<and>
   pendingRequests (effect_cleanup asking_bridge) = Map.empty \<and>
   resolved (effect_cleanup asking_bridge) =
     [(0, Some (Initialized ''initialize-0-1'' True None))] \<and>
   1 \<notin> fst ` set (resolved (run [TimerFires 5100 1,
       Message (CompletionResponse ''completion-100-2'' [])] (effect_cleanup asking_bridge))) \<and>
   timers (run [TimerFires 5100 1,
       Message (CompletionResponse ''completion-100-2'' [])] (effect_cleanup asking_bridge)) 1 = None"
proof -
  have p: "pendingRequests asking_bridge ''completion-100-2'' = Some 1"
    by (simp add: asking_bridge_fields)
  have c: "cleanupWorker asking_bridge = Some 0" by (simp add: asking_bridge_fields)
  have b: "requestIdCounter (run [TimerFires 5100 1,
      Message (CompletionResponse ''completion-100-2'' [])] (effect_cleanup asking_bridge)) < 2 ^ 53"
    by (simp only: torn_down_fields) simp
  from teardown_abandons_pending_calls [OF bridge_inv_asking p c b] bridge_inv_asking p c
    torn_down_fields(3)
  show ?thesis by (simp only: asking_bridge_fields simp_thms)
qed

end
